theory Spec2Isabelle
  imports Complex_Main
begin

section \<open>JavaScript numbers\<close>

text \<open>
  The calculator is TypeScript; every \<^verbatim>\<open>number\<close> is an IEEE 754 binary64 value.
  A number is modelled as a finite real (always one that binary64 represents), the two
  infinities, or NaN. Every arithmetic operation computes the exact result and rounds it
  with \<open>fl\<close>: to the nearest binary64 value, ties to even, and to an infinity from
  \<open>2^1024 - 2^970\<close> on, which is the overflow rule of the standard.

  The sign of zero is not modelled: \<open>-0\<close> and \<open>+0\<close> are both \<open>Fin 0\<close>. They are
  equal under \<^verbatim>\<open>===\<close>, and the only operation that tells them apart, division by zero,
  is never reached: the calculator divides only behind a \<^verbatim>\<open>> 0\<close> test.
\<close>

datatype number = Fin real | PInf | NInf | NaN

text \<open>Number of binary digits of a positive integer.\<close>

function bit_length :: "int \<Rightarrow> nat" where
  "bit_length n = (if n \<le> 0 then 0 else Suc (bit_length (n div 2)))"
  by pat_completeness auto
termination
  by (relation "measure nat") auto

declare bit_length.simps [simp del]

text \<open>
  The binary exponent \<open>e\<close> with \<open>2^e \<le> |x| < 2^(e+1)\<close>, not below \<open>-1022\<close>
  (the subnormal numbers share the exponent of the smallest normal ones).
\<close>

definition binade :: "real \<Rightarrow> int" where
  "binade x =
     (if 1 \<le> \<bar>x\<bar> then int (bit_length \<lfloor>\<bar>x\<bar>\<rfloor>) - 1
      else if x = 0 then - 1022
      else max (- 1022) (- int (bit_length (\<lceil>1 / \<bar>x\<bar>\<rceil> - 1))))"

definition round_half_even :: "real \<Rightarrow> int" where
  "round_half_even y =
     (let f = \<lfloor>y\<rfloor>; d = y - of_int f
      in if d < 1 / 2 then f else if 1 / 2 < d then f + 1
         else if even f then f else f + 1)"

text \<open>Rounding to 53 significant bits: a multiple of \<open>2^(e-52)\<close>.\<close>

definition round53 :: "real \<Rightarrow> real" where
  "round53 x =
     of_int (round_half_even (x / 2 powi (binade x - 52))) * 2 powi (binade x - 52)"

definition overflow_threshold :: real where
  "overflow_threshold = 2 ^ 1024 - 2 ^ 970"

text \<open>\<^verbatim>\<open>Number.MAX_VALUE\<close>\<close>

definition max_value :: real where
  "max_value = 2 ^ 1024 - 2 ^ 971"

definition fl :: "real \<Rightarrow> number" where
  "fl x = (if overflow_threshold \<le> x then PInf
           else if x \<le> - overflow_threshold then NInf
           else Fin (round53 x))"

text \<open>\<^verbatim>\<open>Number.isFinite\<close>, \<^verbatim>\<open>isFinite\<close>\<close>

fun is_finite :: "number \<Rightarrow> bool" where
  "is_finite (Fin x) = True"
| "is_finite n = False"

text \<open>A finite number that binary64 holds: at most \<^verbatim>\<open>Number.MAX_VALUE\<close> in magnitude.\<close>

fun in_range :: "number \<Rightarrow> bool" where
  "in_range (Fin x) = (\<bar>x\<bar> \<le> max_value)"
| "in_range n = True"

fun js_neg :: "number \<Rightarrow> number" where
  "js_neg (Fin x) = Fin (- x)"
| "js_neg PInf = NInf"
| "js_neg NInf = PInf"
| "js_neg NaN = NaN"

fun js_add :: "number \<Rightarrow> number \<Rightarrow> number" where
  "js_add NaN b = NaN"
| "js_add a NaN = NaN"
| "js_add (Fin x) (Fin y) = fl (x + y)"
| "js_add PInf NInf = NaN"
| "js_add NInf PInf = NaN"
| "js_add PInf b = PInf"
| "js_add NInf b = NInf"
| "js_add (Fin x) b = b"

definition js_sub :: "number \<Rightarrow> number \<Rightarrow> number" where
  "js_sub a b = js_add a (js_neg b)"

text \<open>Sign of a number that is not NaN: \<open>-1\<close>, \<open>0\<close> or \<open>1\<close>.\<close>

fun sign_of :: "number \<Rightarrow> int" where
  "sign_of (Fin x) = (if x < 0 then - 1 else if x = 0 then 0 else 1)"
| "sign_of PInf = 1"
| "sign_of NInf = - 1"
| "sign_of NaN = 0"

definition signed_inf :: "int \<Rightarrow> number" where
  "signed_inf s = (if s < 0 then NInf else PInf)"

fun js_mul :: "number \<Rightarrow> number \<Rightarrow> number" where
  "js_mul NaN b = NaN"
| "js_mul a NaN = NaN"
| "js_mul (Fin x) (Fin y) = fl (x * y)"
| "js_mul a b =
     (if sign_of a = 0 \<or> sign_of b = 0 then NaN else signed_inf (sign_of a * sign_of b))"

fun js_div :: "number \<Rightarrow> number \<Rightarrow> number" where
  "js_div NaN b = NaN"
| "js_div a NaN = NaN"
| "js_div (Fin x) (Fin y) =
     (if y = 0 then (if x = 0 then NaN else signed_inf (sign_of (Fin x))) else fl (x / y))"
| "js_div (Fin x) b = Fin 0"
| "js_div a (Fin y) = signed_inf (sign_of a * (if y < 0 then - 1 else 1))"
| "js_div a b = NaN"

text \<open>\<^verbatim>\<open>a > b\<close>: false as soon as one side is NaN.\<close>

fun js_gt :: "number \<Rightarrow> number \<Rightarrow> bool" where
  "js_gt NaN b = False"
| "js_gt a NaN = False"
| "js_gt (Fin x) (Fin y) = (y < x)"
| "js_gt PInf b = (b \<noteq> PInf)"
| "js_gt a NInf = (a \<noteq> NInf)"
| "js_gt a b = False"

text \<open>\<^verbatim>\<open>a >= b\<close>\<close>

definition js_ge :: "number \<Rightarrow> number \<Rightarrow> bool" where
  "js_ge a b = (a \<noteq> NaN \<and> b \<noteq> NaN \<and> \<not> js_gt b a)"

text \<open>\<^verbatim>\<open>Math.max\<close> of two arguments\<close>

fun js_max :: "number \<Rightarrow> number \<Rightarrow> number" where
  "js_max NaN b = NaN"
| "js_max a NaN = NaN"
| "js_max (Fin x) (Fin y) = Fin (max x y)"
| "js_max PInf b = PInf"
| "js_max a PInf = PInf"
| "js_max NInf b = b"
| "js_max a NInf = a"

text \<open>\<^verbatim>\<open>Math.floor\<close>\<close>

fun js_floor :: "number \<Rightarrow> number" where
  "js_floor (Fin x) = Fin (of_int \<lfloor>x\<rfloor>)"
| "js_floor n = n"

text \<open>\<^verbatim>\<open>Math.round\<close>: the nearest integer, a tie going up.\<close>

fun js_round :: "number \<Rightarrow> number" where
  "js_round (Fin x) = Fin (of_int \<lfloor>x + 1 / 2\<rfloor>)"
| "js_round n = n"

section \<open>Strings to numbers\<close>

text \<open>
  \<^verbatim>\<open>Number(s)\<close> on a string follows the StringNumericLiteral grammar of ECMAScript:
  white space is trimmed, the empty string is \<open>0\<close>, then comes a binary, octal or
  hexadecimal integer, or a signed decimal literal with an optional fraction and
  exponent, or a signed \<^verbatim>\<open>Infinity\<close>. Anything else is NaN. The mathematical value is
  rounded to binary64. A \<open>char\<close> stands for a code unit below 256.
\<close>

definition is_space :: "char \<Rightarrow> bool" where
  "is_space c = (of_char c \<in> {9, 10, 11, 12, 13, 32, 160 :: nat})"

definition trim :: "string \<Rightarrow> string" where
  "trim s = rev (dropWhile is_space (rev (dropWhile is_space s)))"

definition is_digit :: "char \<Rightarrow> bool" where
  "is_digit c = (48 \<le> (of_char c :: nat) \<and> (of_char c :: nat) \<le> 57)"

text \<open>Value of a digit in a radix up to 16, if it is one.\<close>

definition digit_of :: "nat \<Rightarrow> char \<Rightarrow> nat option" where
  "digit_of radix c =
     (let n = (of_char c :: nat);
          v = (if 48 \<le> n \<and> n \<le> 57 then Some (n - 48)
               else if 97 \<le> n \<and> n \<le> 102 then Some (n - 87)
               else if 65 \<le> n \<and> n \<le> 70 then Some (n - 55)
               else None)
      in case v of None \<Rightarrow> None | Some d \<Rightarrow> if d < radix then Some d else None)"

fun digits_val :: "nat \<Rightarrow> nat \<Rightarrow> string \<Rightarrow> nat option" where
  "digits_val radix acc [] = Some acc"
| "digits_val radix acc (c # cs) =
     (case digit_of radix c of
        None \<Rightarrow> None
      | Some d \<Rightarrow> digits_val radix (radix * acc + d) cs)"

text \<open>DecimalDigits: at least one digit.\<close>

definition decimal_digits :: "string \<Rightarrow> nat option" where
  "decimal_digits s = (if s = [] then None else digits_val 10 0 s)"

text \<open>ExponentPart, or nothing.\<close>

definition parse_exponent :: "string \<Rightarrow> int option" where
  "parse_exponent s =
     (case s of
        [] \<Rightarrow> Some 0
      | c # t \<Rightarrow>
          if c = CHR ''e'' \<or> c = CHR ''E'' then
            (case t of
               [] \<Rightarrow> None
             | d # u \<Rightarrow>
                 if d = CHR ''+'' then map_option int (decimal_digits u)
                 else if d = CHR ''-'' then map_option (\<lambda>n. - int n) (decimal_digits u)
                 else map_option int (decimal_digits t))
          else None)"

text \<open>The mathematical value of a StrUnsignedDecimalLiteral other than \<^verbatim>\<open>Infinity\<close>.\<close>

definition parse_unsigned_decimal :: "string \<Rightarrow> real option" where
  "parse_unsigned_decimal s =
     (let ip = takeWhile is_digit s;
          r1 = dropWhile is_digit s;
          fp = (case r1 of [] \<Rightarrow> [] | c # t \<Rightarrow> if c = CHR ''.'' then takeWhile is_digit t else []);
          r2 = (case r1 of [] \<Rightarrow> [] | c # t \<Rightarrow> if c = CHR ''.'' then dropWhile is_digit t else r1)
      in if ip = [] \<and> fp = [] then None
         else case (digits_val 10 0 ip, digits_val 10 0 fp, parse_exponent r2) of
                (Some i, Some f, Some e) \<Rightarrow>
                  Some ((of_nat i + of_nat f / 10 ^ length fp) * 10 powi e)
              | _ \<Rightarrow> None)"

definition parse_unsigned :: "string \<Rightarrow> number" where
  "parse_unsigned s =
     (if s = ''Infinity'' then PInf
      else case parse_unsigned_decimal s of None \<Rightarrow> NaN | Some v \<Rightarrow> fl v)"

text \<open>StrDecimalLiteral: an optional sign.\<close>

definition parse_decimal :: "string \<Rightarrow> number" where
  "parse_decimal s =
     (case s of
        [] \<Rightarrow> NaN
      | c # t \<Rightarrow>
          if c = CHR ''+'' then parse_unsigned t
          else if c = CHR ''-'' then js_neg (parse_unsigned t)
          else parse_unsigned s)"

text \<open>NonDecimalIntegerLiteral after its two-character prefix.\<close>

definition parse_radix :: "nat \<Rightarrow> string \<Rightarrow> number" where
  "parse_radix radix ds =
     (if ds = [] then NaN
      else case digits_val radix 0 ds of None \<Rightarrow> NaN | Some n \<Rightarrow> fl (of_nat n))"

text \<open>\<^verbatim>\<open>Number(s)\<close> for a string \<open>s\<close>\<close>

definition js_Number :: "string \<Rightarrow> number" where
  "js_Number s =
     (let t = trim s
      in case t of
           [] \<Rightarrow> Fin 0
         | [c] \<Rightarrow> parse_decimal t
         | c0 # c1 # ds \<Rightarrow>
             if c0 = CHR ''0'' \<and> (c1 = CHR ''x'' \<or> c1 = CHR ''X'') then parse_radix 16 ds
             else if c0 = CHR ''0'' \<and> (c1 = CHR ''o'' \<or> c1 = CHR ''O'') then parse_radix 8 ds
             else if c0 = CHR ''0'' \<and> (c1 = CHR ''b'' \<or> c1 = CHR ''B'') then parse_radix 2 ds
             else parse_decimal t)"

text \<open>\<^verbatim>\<open>s.replace(",", ".")\<close>: a string pattern replaces its first occurrence only.\<close>

fun replace_comma :: "string \<Rightarrow> string" where
  "replace_comma [] = []"
| "replace_comma (c # cs) = (if c = CHR '','' then CHR ''.'' # cs else c # replace_comma cs)"

section \<open>The calculator\<close>

subsection \<open>Form state and results\<close>

text \<open>
  A form field is \<^verbatim>\<open>number | string\<close>; \<open>parseNum\<close> also accepts \<^verbatim>\<open>undefined\<close> and tests
  for \<^verbatim>\<open>null\<close>.
\<close>

datatype raw = RStr string | RNum number | RUndefined | RNull

text \<open>
  \<^verbatim>\<open>RoiInputs\<close>. \<open>horizonYears\<close> is a length: the component never changes it from its
  default \<open>15\<close>, and it is modelled as a natural number (the lengths
  \<^verbatim>\<open>Array.from\<close> accepts).
\<close>

record RoiInputs =
  householdSize :: raw
  electricityPrice :: raw
  systemCost :: raw
  "grant" :: raw
  kwhPerPerson :: raw
  maintenance :: number
  savingsRatio :: number
  horizonYears :: nat

text \<open>A point \<^verbatim>\<open>{ year, value }\<close> of the chart; the field \<^verbatim>\<open>value\<close> is \<open>val\<close> here.\<close>

record point =
  year :: nat
  val :: number

record DerivedResults =
  annualHotWaterKwh :: number
  annualHotWaterCost :: number
  annualSavings :: number
  netAnnualSavings :: number
  upfront :: number
  paybackYears :: number
  data :: "point list"
  tenYearRoi :: number

subsection \<open>Helpers\<close>

text \<open>The literal \<^verbatim>\<open>0.1\<close> of the source: the nearest binary64 value.\<close>

definition lit_0_1 :: number where
  "lit_0_1 = fl (1 / 10)"

text \<open>
  \<^verbatim>\<open>parseNum\<close>. On a number \<open>n\<close>, \<^verbatim>\<open>String(n)\<close> has no comma and
  \<^verbatim>\<open>Number(String(n))\<close> is \<open>n\<close> again, so only the finiteness test remains.
\<close>

definition parseNum :: "raw \<Rightarrow> number option" where
  "parseNum v =
     (case v of
        RUndefined \<Rightarrow> None
      | RNull \<Rightarrow> None
      | RStr s \<Rightarrow>
          if s = [] then None
          else (let n = js_Number (replace_comma s) in if is_finite n then Some n else None)
      | RNum n \<Rightarrow> if is_finite n then Some n else None)"

definition clampInt :: "number option \<Rightarrow> number \<Rightarrow> number option" where
  "clampInt n m = (case n of None \<Rightarrow> None | Some x \<Rightarrow> Some (js_max m (js_floor x)))"

definition clampMin :: "number option \<Rightarrow> number \<Rightarrow> number option" where
  "clampMin n m = (case n of None \<Rightarrow> None | Some x \<Rightarrow> Some (js_max m x))"

text \<open>\<^verbatim>\<open>x ?? 0\<close>\<close>

definition or_zero :: "number option \<Rightarrow> number" where
  "or_zero n = (case n of None \<Rightarrow> Fin 0 | Some x \<Rightarrow> x)"

text \<open>\<^verbatim>\<open>Array.from({ length: n }, (_, i) => i)\<close>\<close>

definition years_upto :: "nat \<Rightarrow> nat list" where
  "years_upto n = [0..<n]"

subsection \<open>The sanitized calculator\<close>

text \<open>The five sanitized fields, as the first lines of \<open>derived\<close> compute them.\<close>

definition sanitized_householdSize :: "RoiInputs \<Rightarrow> number option" where
  "sanitized_householdSize form = clampInt (parseNum (householdSize form)) (Fin 1)"

definition sanitized_electricityPrice :: "RoiInputs \<Rightarrow> number option" where
  "sanitized_electricityPrice form = clampMin (parseNum (electricityPrice form)) lit_0_1"

definition sanitized_systemCost :: "RoiInputs \<Rightarrow> number" where
  "sanitized_systemCost form = or_zero (clampInt (parseNum (systemCost form)) (Fin 0))"

definition sanitized_grant :: "RoiInputs \<Rightarrow> number" where
  "sanitized_grant form = or_zero (clampInt (parseNum (grant form)) (Fin 0))"

definition sanitized_kwhPerPerson :: "RoiInputs \<Rightarrow> number option" where
  "sanitized_kwhPerPerson form = clampInt (parseNum (kwhPerPerson form)) (Fin 500)"

text \<open>
  The loop over the years: \<open>cumulative\<close> is the variable the callback of
  \<^verbatim>\<open>years.map\<close> updates; each point holds its rounded value.
\<close>

fun cashflow :: "number \<Rightarrow> number \<Rightarrow> nat list \<Rightarrow> point list" where
  "cashflow nas cumulative [] = []"
| "cashflow nas cumulative (y # ys) =
     (let cumulative' = (if 0 < y then js_add cumulative nas else cumulative)
      in \<lparr>year = y, val = js_round cumulative'\<rparr> # cashflow nas cumulative' ys)"

text \<open>
  The guard branch: a required field is missing. The length of \<open>years\<close> is
  \<^verbatim>\<open>(Number(form.horizonYears) || 0) + 1\<close>.
\<close>

definition derived_guard :: "RoiInputs \<Rightarrow> DerivedResults" where
  "derived_guard form =
     (let years = years_upto ((if horizonYears form = 0 then 0 else horizonYears form) + 1)
      in \<lparr>annualHotWaterKwh = Fin 0,
          annualHotWaterCost = Fin 0,
          annualSavings = Fin 0,
          netAnnualSavings = Fin 0,
          upfront = js_max (js_sub (sanitized_systemCost form) (sanitized_grant form)) (Fin 0),
          paybackYears = PInf,
          data = map (\<lambda>y. \<lparr>year = y, val = Fin 0\<rparr>) years,
          tenYearRoi = Fin 0\<rparr>)"

text \<open>
  The main branch, on the three required values. The local constants of the source
  appear under short names: \<open>kwh\<close> is \<open>annualHotWaterKwh\<close>, \<open>cost\<close> is
  \<open>annualHotWaterCost\<close>, \<open>savings\<close> is \<open>annualSavings\<close>, \<open>nas\<close> is
  \<open>netAnnualSavings\<close>, \<open>up\<close> is \<open>upfront\<close>.
\<close>

definition derived_main :: "RoiInputs \<Rightarrow> number \<Rightarrow> number \<Rightarrow> number \<Rightarrow> DerivedResults" where
  "derived_main form hs ep kp =
     (let kwh = js_mul hs kp;
          cost = js_mul kwh ep;
          savings = js_mul cost (savingsRatio form);
          nas = js_max (js_sub savings (maintenance form)) (Fin 0);
          up = js_max (js_sub (sanitized_systemCost form) (sanitized_grant form)) (Fin 0);
          payback = (if js_gt nas (Fin 0) then js_div up nas else PInf);
          years = years_upto (horizonYears form + 1);
          roi = (if js_gt up (Fin 0) then js_div (js_sub (js_mul nas (Fin 10)) up) up else Fin 0)
      in \<lparr>annualHotWaterKwh = kwh,
          annualHotWaterCost = cost,
          annualSavings = savings,
          netAnnualSavings = nas,
          upfront = up,
          paybackYears = payback,
          data = cashflow nas (js_neg up) years,
          tenYearRoi = roi\<rparr>)"

text \<open>\<open>derived\<close> of the sanitized \<^verbatim>\<open>RoiCalculator\<close>.\<close>

definition derived :: "RoiInputs \<Rightarrow> DerivedResults" where
  "derived form =
     (case (sanitized_householdSize form, sanitized_electricityPrice form,
            sanitized_kwhPerPerson form) of
        (Some hs, Some ep, Some kp) \<Rightarrow> derived_main form hs ep kp
      | _ \<Rightarrow> derived_guard form)"

text \<open>A complete input: the three required fields have a value.\<close>

definition complete :: "RoiInputs \<Rightarrow> bool" where
  "complete form =
     (sanitized_householdSize form \<noteq> None \<and> sanitized_electricityPrice form \<noteq> None \<and>
      sanitized_kwhPerPerson form \<noteq> None)"

subsection \<open>Committing a field on blur\<close>

text \<open>The five \<^verbatim>\<open>onBlur\<close> handlers: \<^verbatim>\<open>n === undefined ? "" : n\<close>.\<close>

definition commit :: "number option \<Rightarrow> raw" where
  "commit n = (case n of None \<Rightarrow> RStr [] | Some x \<Rightarrow> RNum x)"

definition onBlur_householdSize :: "RoiInputs \<Rightarrow> RoiInputs" where
  "onBlur_householdSize f =
     f\<lparr>householdSize := commit (clampInt (parseNum (householdSize f)) (Fin 1))\<rparr>"

definition onBlur_electricityPrice :: "RoiInputs \<Rightarrow> RoiInputs" where
  "onBlur_electricityPrice f =
     f\<lparr>electricityPrice := commit (clampMin (parseNum (electricityPrice f)) lit_0_1)\<rparr>"

definition onBlur_systemCost :: "RoiInputs \<Rightarrow> RoiInputs" where
  "onBlur_systemCost f =
     f\<lparr>systemCost := commit (clampInt (parseNum (systemCost f)) (Fin 0))\<rparr>"

definition onBlur_grant :: "RoiInputs \<Rightarrow> RoiInputs" where
  "onBlur_grant f =
     f\<lparr>grant := commit (clampInt (parseNum (grant f)) (Fin 0))\<rparr>"

definition onBlur_kwhPerPerson :: "RoiInputs \<Rightarrow> RoiInputs" where
  "onBlur_kwhPerPerson f =
     f\<lparr>kwhPerPerson := commit (clampInt (parseNum (kwhPerPerson f)) (Fin 500))\<rparr>"

subsection \<open>The legacy calculator\<close>

text \<open>Its \<^verbatim>\<open>RoiInputs\<close> has numbers only; the fields carry the prefix \<open>l_\<close> here.\<close>

record LegacyInputs =
  l_householdSize :: number
  l_electricityPrice :: number
  l_systemCost :: number
  l_grant :: number
  l_maintenance :: number
  l_savingsRatio :: number
  l_kwhPerPerson :: number
  l_horizonYears :: nat

definition derived_legacy :: "LegacyInputs \<Rightarrow> DerivedResults" where
  "derived_legacy form =
     (let kwh = js_mul (l_householdSize form) (l_kwhPerPerson form);
          cost = js_mul kwh (l_electricityPrice form);
          savings = js_mul cost (l_savingsRatio form);
          nas = js_max (js_sub savings (l_maintenance form)) (Fin 0);
          up = js_max (js_sub (l_systemCost form) (l_grant form)) (Fin 0);
          payback = (if js_gt nas (Fin 0) then js_div up nas else PInf);
          years = years_upto (l_horizonYears form + 1);
          roi = (if js_gt up (Fin 0) then js_div (js_sub (js_mul nas (Fin 10)) up) up else Fin 0)
      in \<lparr>annualHotWaterKwh = kwh,
          annualHotWaterCost = cost,
          annualSavings = savings,
          netAnnualSavings = nas,
          upfront = up,
          paybackYears = payback,
          data = cashflow nas (js_neg up) years,
          tenYearRoi = roi\<rparr>)"

subsection \<open>Defaults\<close>

text \<open>\<^verbatim>\<open>defaultInputs\<close>; a decimal literal denotes the nearest binary64 value.\<close>

definition defaultInputs :: RoiInputs where
  "defaultInputs =
     \<lparr>householdSize = RNum (Fin 3),
      electricityPrice = RNum (fl (195 / 100)),
      systemCost = RNum (Fin 29000),
      grant = RNum (Fin 0),
      kwhPerPerson = RNum (Fin 1000),
      maintenance = Fin 0,
      savingsRatio = fl (66 / 100),
      horizonYears = 15\<rparr>"

definition legacy_defaultInputs :: LegacyInputs where
  "legacy_defaultInputs =
     \<lparr>l_householdSize = Fin 3,
      l_electricityPrice = fl (195 / 100),
      l_systemCost = Fin 29000,
      l_grant = Fin 0,
      l_maintenance = Fin 0,
      l_savingsRatio = fl (66 / 100),
      l_kwhPerPerson = Fin 1000,
      l_horizonYears = 15\<rparr>"

subsection \<open>Notions used by the statements\<close>

text \<open>
  The value of the variable \<open>cumulative\<close> after \<open>i\<close> additions: the running total
  the loop keeps, which is never rounded to an integer.
\<close>

fun running_total :: "number \<Rightarrow> number \<Rightarrow> nat \<Rightarrow> number" where
  "running_total nas c 0 = c"
| "running_total nas c (Suc i) = js_add (running_total nas c i) nas"

text \<open>A well-formed field: a number it holds is a binary64 value; a string is any text.\<close>

fun wf_raw :: "raw \<Rightarrow> bool" where
  "wf_raw (RNum n) = in_range n"
| "wf_raw v = True"

text \<open>
  A well-formed form: its numbers are binary64 values, the yearly maintenance is a
  finite cost that is not negative, and the savings ratio lies between 0 and 1.
\<close>

definition valid_form :: "RoiInputs \<Rightarrow> bool" where
  "valid_form form =
     (wf_raw (householdSize form) \<and> wf_raw (electricityPrice form) \<and>
      wf_raw (systemCost form) \<and> wf_raw (grant form) \<and> wf_raw (kwhPerPerson form) \<and>
      is_finite (maintenance form) \<and> in_range (maintenance form) \<and>
      js_ge (maintenance form) (Fin 0) \<and>
      js_ge (savingsRatio form) (Fin 0) \<and> js_ge (Fin 1) (savingsRatio form))"

text \<open>A finite number of magnitude at most \<open>B\<close>.\<close>

fun at_most :: "real \<Rightarrow> number \<Rightarrow> bool" where
  "at_most B (Fin x) = (\<bar>x\<bar> \<le> B)"
| "at_most B n = False"

fun opt_at_most :: "real \<Rightarrow> number option \<Rightarrow> bool" where
  "opt_at_most B None = True"
| "opt_at_most B (Some n) = at_most B n"

text \<open>
  An input of moderate size: every sanitized field and the maintenance are at most
  \<open>2^50\<close> (about \<open>1.1e15\<close>), and the horizon is at most 800 years.
\<close>

definition moderate_form :: "RoiInputs \<Rightarrow> bool" where
  "moderate_form form =
     (opt_at_most (2 ^ 50) (sanitized_householdSize form) \<and>
      opt_at_most (2 ^ 50) (sanitized_electricityPrice form) \<and>
      opt_at_most (2 ^ 50) (sanitized_kwhPerPerson form) \<and>
      at_most (2 ^ 50) (sanitized_systemCost form) \<and>
      at_most (2 ^ 50) (sanitized_grant form) \<and>
      at_most (2 ^ 50) (maintenance form) \<and>
      horizonYears form \<le> 800)"

subsection \<open>Inputs used as examples\<close>

text \<open>The defaults with the price typed as \<^verbatim>\<open>1,96\<close>.\<close>

definition price_1_96 :: RoiInputs where
  "price_1_96 = defaultInputs\<lparr>electricityPrice := RStr ''1,96''\<rparr>"

text \<open>The defaults with the hot-water field cleared.\<close>

definition kwh_empty :: RoiInputs where
  "kwh_empty = defaultInputs\<lparr>kwhPerPerson := RStr ''''\<rparr>"

text \<open>The defaults with text in the household field.\<close>

definition household_text :: RoiInputs where
  "household_text = defaultInputs\<lparr>householdSize := RStr ''abc''\<rparr>"

text \<open>The defaults with \<^verbatim>\<open>2,7\<close> persons and the hot-water field cleared.\<close>

definition household_2_7 :: RoiInputs where
  "household_2_7 = defaultInputs\<lparr>householdSize := RStr ''2,7'', kwhPerPerson := RStr ''''\<rparr>"

text \<open>The defaults with a grant of \<open>30000\<close>, above the system cost.\<close>

definition grant_30000 :: RoiInputs where
  "grant_30000 = defaultInputs\<lparr>grant := RStr ''30000''\<rparr>"

text \<open>The defaults with the system cost typed as \<^verbatim>\<open>1e308\<close> and a maintenance of \<open>3860.5\<close>.\<close>

definition cost_1e308 :: RoiInputs where
  "cost_1e308 = defaultInputs\<lparr>systemCost := RStr ''1e308'', maintenance := Fin (7721 / 2)\<rparr>"

text \<open>The defaults with a maintenance of \<open>5000\<close>, above the yearly saving.\<close>

definition maintenance_5000 :: RoiInputs where
  "maintenance_5000 = defaultInputs\<lparr>maintenance := Fin 5000\<rparr>"

text \<open>A form as typed: a decimal comma, a price below the minimum, a negative cost.\<close>

definition typed_form :: RoiInputs where
  "typed_form =
     \<lparr>householdSize = RStr ''2,7'',
      electricityPrice = RStr ''0,05'',
      systemCost = RStr ''-5'',
      grant = RStr '''',
      kwhPerPerson = RStr ''250'',
      maintenance = Fin 0,
      savingsRatio = fl (66 / 100),
      horizonYears = 15\<rparr>"

text \<open>The defaults with the household size typed as \<^verbatim>\<open>1e306\<close>.\<close>

definition household_1e306 :: RoiInputs where
  "household_1e306 = defaultInputs\<lparr>householdSize := RStr ''1e306''\<rparr>"

section \<open>Properties of the number model\<close>

subsection \<open>Binary exponent\<close>

lemma bit_length_bounds:
  "0 < n \<Longrightarrow> 2 ^ (bit_length n - 1) \<le> n \<and> n < 2 ^ bit_length n"
proof (induction n rule: bit_length.induct)
  case (1 n)
  show ?case
  proof (cases "n = 1")
    case True
    then show ?thesis by (simp add: bit_length.simps)
  next
    case False
    with "1.prems" have pos: "0 < n div 2" by simp
    from "1.IH" "1.prems" pos
    have ih: "2 ^ (bit_length (n div 2) - 1) \<le> n div 2" "n div 2 < 2 ^ bit_length (n div 2)"
      by simp_all
    have bl: "bit_length n = Suc (bit_length (n div 2))"
      using "1.prems" by (subst bit_length.simps) simp
    have blpos: "0 < bit_length (n div 2)"
      using pos by (subst bit_length.simps) simp
    then obtain k where k: "bit_length (n div 2) = Suc k"
      by (cases "bit_length (n div 2)") auto
    from ih k have "2 * 2 ^ k \<le> n" "n < 2 * 2 ^ Suc k"
      by simp_all
    then show ?thesis by (simp add: bl k)
  qed
qed


lemma bit_length_bounds_real:
  assumes "0 < n"
  shows "(2::real) ^ (bit_length n - 1) \<le> real_of_int n"
    and "real_of_int n + 1 \<le> 2 ^ bit_length n"
proof -
  from bit_length_bounds [OF assms]
  have a: "2 ^ (bit_length n - 1) \<le> n" and b: "n + 1 \<le> 2 ^ bit_length n"
    by simp_all
  from a have "real_of_int (2 ^ (bit_length n - 1)) \<le> real_of_int n"
    by (simp only: of_int_le_iff)
  then show "(2::real) ^ (bit_length n - 1) \<le> real_of_int n"
    by simp
  from b have "real_of_int (n + 1) \<le> real_of_int (2 ^ bit_length n)"
    by (simp only: of_int_le_iff)
  then show "real_of_int n + 1 \<le> 2 ^ bit_length n"
    by simp
qed

lemma bit_length_pos: "0 < n \<Longrightarrow> 0 < bit_length n"
  by (subst bit_length.simps) simp

lemma two_powi_pos [simp]: "0 < (2::real) powi k"
  by (simp add: power_int_def)

lemma two_powi_less_cancel: "(2::real) powi a < 2 powi b \<Longrightarrow> a < b"
  by (metis not_less one_le_numeral power_int_increasing leD)

lemma binade_ge: "- 1022 \<le> binade x"
  by (simp add: binade_def)

lemma binade_upper:
  assumes "x \<noteq> 0"
  shows "\<bar>x\<bar> < 2 powi (binade x + 1)"
proof (cases "1 \<le> \<bar>x\<bar>")
  case True
  define n where "n = \<lfloor>\<bar>x\<bar>\<rfloor>"
  have npos: "0 < n" using True by (simp add: n_def)
  have "\<bar>x\<bar> < real_of_int n + 1"
    unfolding n_def by linarith
  with bit_length_bounds_real(2) [OF npos]
  have "\<bar>x\<bar> < 2 ^ bit_length n" by linarith
  moreover have "binade x + 1 = int (bit_length n)"
    using True by (simp add: binade_def n_def)
  ultimately show ?thesis by (simp add: power_int_of_nat)
next
  case False
  define y where "y = 1 / \<bar>x\<bar>"
  define m where "m = \<lceil>y\<rceil> - 1"
  have xpos: "0 < \<bar>x\<bar>" using assms by simp
  have y1: "1 < y" using False xpos by (simp add: y_def)
  have mpos: "0 < m" using y1 unfolding m_def by linarith
  have my: "real_of_int m < y" unfolding m_def by linarith
  define G where "G = bit_length m"
  have Gpos: "0 < G" using mpos by (simp add: G_def bit_length_pos)
  from bit_length_bounds_real(1) [OF mpos] my have lt: "2 ^ (G - 1) < y"
    unfolding G_def by linarith
  have "\<bar>x\<bar> = 1 / y" using xpos by (simp add: y_def)
  also have "\<dots> < 1 / 2 ^ (G - 1)"
    using lt by (simp add: frac_less2)
  also have "\<dots> = 2 powi (- int G + 1)"
  proof -
    from Gpos obtain k where k: "G = Suc k" by (cases G) auto
    have "(2::real) powi (- int k) = 1 / 2 ^ k"
      by (simp add: power_int_minus power_int_of_nat field_simps)
    moreover have "- int G + 1 = - int k" by (simp add: k)
    ultimately show ?thesis by (simp add: k)
  qed
  also have "\<dots> \<le> 2 powi (binade x + 1)"
  proof -
    have "- int G \<le> binade x"
      using False assms by (simp add: binade_def G_def m_def y_def)
    then show ?thesis by (intro power_int_increasing) simp_all
  qed
  finally show ?thesis .
qed

lemma binade_lower_normal:
  assumes x0: "x \<noteq> 0" and e: "- 1022 < binade x"
  shows "2 powi (binade x) \<le> \<bar>x\<bar>"
proof (cases "1 \<le> \<bar>x\<bar>")
  case True
  define n where "n = \<lfloor>\<bar>x\<bar>\<rfloor>"
  have npos: "0 < n" using True by (simp add: n_def)
  have "real_of_int n \<le> \<bar>x\<bar>" by (simp add: n_def)
  with bit_length_bounds_real(1) [OF npos]
  have "2 ^ (bit_length n - 1) \<le> \<bar>x\<bar>" by linarith
  moreover have "binade x = int (bit_length n - 1)"
    using True bit_length_pos [OF npos] by (simp add: binade_def n_def)
  ultimately show ?thesis by (simp add: power_int_of_nat del: of_nat_diff)
next
  case False
  have xpos: "0 < \<bar>x\<bar>" using x0 by simp
  define y where "y = 1 / \<bar>x\<bar>"
  define m where "m = \<lceil>y\<rceil> - 1"
  have y1: "1 < y" using False xpos by (simp add: y_def)
  have mpos: "0 < m" using y1 unfolding m_def by linarith
  have ym: "y \<le> real_of_int m + 1" unfolding m_def by linarith
  define G where "G = bit_length m"
  have "binade x = max (- 1022) (- int G)"
    using False x0 by (simp add: binade_def G_def m_def y_def)
  with e have b: "binade x = - int G" by (simp add: max_def split: if_splits)
  from bit_length_bounds_real(2) [OF mpos] ym have "y \<le> 2 ^ G"
    unfolding G_def by linarith
  then have "1 / 2 ^ G \<le> 1 / y"
    using y1 by (simp add: frac_le)
  moreover have "1 / y = \<bar>x\<bar>" using xpos by (simp add: y_def)
  moreover have "2 powi (binade x) = 1 / (2::real) ^ G"
    using b by (simp add: power_int_minus power_int_of_nat field_simps)
  ultimately show ?thesis by simp
qed

lemma binade_lower:
  assumes "2 powi (- 1022) \<le> \<bar>x\<bar>"
  shows "2 powi (binade x) \<le> \<bar>x\<bar>"
proof (cases "- 1022 < binade x")
  case True
  have "0 < \<bar>x\<bar>"
    using assms two_powi_pos [of "- 1022"] by linarith
  then have "x \<noteq> 0" by auto
  then show ?thesis using True by (rule binade_lower_normal)
next
  case False
  with binade_ge [of x] have "binade x = - 1022" by simp
  with assms show ?thesis by simp
qed

lemma binade_unique:
  assumes lo: "2 powi e \<le> \<bar>x\<bar>" and hi: "\<bar>x\<bar> < 2 powi (e + 1)" and e: "- 1022 \<le> e"
  shows "binade x = e"
proof -
  have "(2::real) powi (- 1022) \<le> 2 powi e"
    using e by (intro power_int_increasing) simp_all
  with lo have n: "2 powi (- 1022) \<le> \<bar>x\<bar>" by simp
  then have x0: "x \<noteq> 0" using two_powi_pos [of "- 1022"] by auto
  from binade_lower [OF n] hi have "(2::real) powi (binade x) < 2 powi (e + 1)" by simp
  then have "binade x < e + 1" by (rule two_powi_less_cancel)
  moreover from binade_upper [OF x0] lo have "(2::real) powi e < 2 powi (binade x + 1)" by simp
  then have "e < binade x + 1" by (rule two_powi_less_cancel)
  ultimately show ?thesis by simp
qed


subsection \<open>Rounding to the nearest integer, ties to even\<close>

lemma round_half_even_near: "\<bar>real_of_int (round_half_even y) - y\<bar> \<le> 1 / 2"
  unfolding round_half_even_def Let_def by (simp; linarith)

lemma round_half_even_of_int [simp]: "round_half_even (real_of_int n) = n"
  by (simp add: round_half_even_def)

lemma round_half_even_eval:
  assumes "\<bar>y - real_of_int n\<bar> < 1 / 2"
  shows "round_half_even y = n"
proof -
  from round_half_even_near [of y] assms
  have "\<bar>real_of_int (round_half_even y) - real_of_int n\<bar> < 1" by linarith
  then have "\<bar>real_of_int (round_half_even y - n)\<bar> < 1" by simp
  then have "\<bar>round_half_even y - n\<bar> < 1" by linarith
  then show ?thesis by simp
qed

lemma round_half_even_ge:
  assumes "real_of_int n \<le> y"
  shows "n \<le> round_half_even y"
proof -
  from round_half_even_near [of y] assms
  have "real_of_int n - 1 < real_of_int (round_half_even y)" by linarith
  then have "n - 1 < round_half_even y" by linarith
  then show ?thesis by simp
qed

lemma round_half_even_le:
  assumes "y \<le> real_of_int n"
  shows "round_half_even y \<le> n"
proof -
  from round_half_even_near [of y] assms
  have "real_of_int (round_half_even y) < real_of_int n + 1" by linarith
  then have "round_half_even y < n + 1" by linarith
  then show ?thesis by simp
qed

lemma round_half_even_less:
  assumes "y < real_of_int n - 1 / 2"
  shows "round_half_even y < n"
proof -
  from round_half_even_near [of y] assms
  have "real_of_int (round_half_even y) < real_of_int n" by linarith
  then show ?thesis by linarith
qed

lemma round_half_even_greater:
  assumes "real_of_int n + 1 / 2 < y"
  shows "n < round_half_even y"
proof -
  from round_half_even_near [of y] assms
  have "real_of_int n < real_of_int (round_half_even y)" by linarith
  then show ?thesis by linarith
qed

subsection \<open>Rounding to binary64\<close>

lemma round53_zero [simp]: "round53 0 = 0"
  by (simp add: round53_def round_half_even_def)

lemma round53_eval:
  assumes "2 powi e \<le> \<bar>x\<bar>" and "\<bar>x\<bar> < 2 powi (e + 1)" and "- 1022 \<le> e"
  shows "round53 x = real_of_int (round_half_even (x / 2 powi (e - 52))) * 2 powi (e - 52)"
  using binade_unique [OF assms] by (simp add: round53_def)

lemma round53_nonneg:
  assumes "0 \<le> x"
  shows "0 \<le> round53 x"
proof -
  have "real_of_int 0 \<le> x / 2 powi (binade x - 52)" using assms by simp
  then have "0 \<le> round_half_even (x / 2 powi (binade x - 52))"
    by (rule round_half_even_ge)
  then show ?thesis by (simp add: round53_def)
qed

lemma round53_nonpos:
  assumes "x \<le> 0"
  shows "round53 x \<le> 0"
proof -
  have "x / 2 powi (binade x - 52) \<le> real_of_int 0"
    using assms by (simp add: divide_nonpos_pos)
  then have "round_half_even (x / 2 powi (binade x - 52)) \<le> 0"
    by (rule round_half_even_le)
  then show ?thesis by (simp add: round53_def mult_nonpos_nonneg)
qed


lemma two_powi_le_cancel: "(2::real) powi a \<le> 2 powi b \<Longrightarrow> a \<le> b"
  by (metis not_less one_less_numeral_iff power_int_strict_increasing semiring_norm(76) leD)

lemma two_powi_split: "(2::real) powi (a + b) = 2 powi a * 2 powi b"
  by (simp add: power_int_add)

lemma two_powi_diff: "(2::real) powi (a - b) = 2 powi a / 2 powi b"
  by (simp add: power_int_diff)

lemma round53_exact:
  assumes x: "x = real_of_int n * 2 powi k" and n: "\<bar>n\<bar> < 2 ^ 53" and k: "- 1074 \<le> k"
  shows "round53 x = x"
proof (cases "x = 0")
  case True
  then show ?thesis by simp
next
  case False
  define e where "e = binade x"
  have ek: "e - 52 \<le> k"
  proof (cases "- 1022 < e")
    case True
    then have "2 powi e \<le> \<bar>x\<bar>"
      unfolding e_def using False by (intro binade_lower_normal) simp_all
    also have "\<bar>x\<bar> = \<bar>real_of_int n\<bar> * 2 powi k"
      by (simp add: x abs_mult)
    also have "\<dots> < 2 ^ 53 * 2 powi k"
    proof -
      from n have "real_of_int \<bar>n\<bar> < real_of_int (2 ^ 53)"
        by (simp only: of_int_less_iff)
      then have "\<bar>real_of_int n\<bar> < 2 ^ 53" by simp
      then show ?thesis by (simp add: mult_strict_right_mono)
    qed
    also have "\<dots> = 2 powi (53 + k)"
      by (simp add: two_powi_split)
    finally have "e < 53 + k" by (rule two_powi_less_cancel)
    then show ?thesis by simp
  next
    case False
    with binade_ge [of x] have "e = - 1022" by (simp add: e_def)
    with k show ?thesis by simp
  qed
  define d where "d = nat (k - (e - 52))"
  have "k = (e - 52) + int d" using ek by (simp add: d_def)
  then have "2 powi k = 2 powi (e - 52) * (2::real) ^ d"
    by (simp add: two_powi_split power_int_of_nat del: of_nat_diff)
  then have "x / 2 powi (e - 52) = real_of_int (n * 2 ^ d)"
    by (simp add: x)
  then have "round_half_even (x / 2 powi (e - 52)) = n * 2 ^ d"
    by (simp only: round_half_even_of_int)
  then have "round53 x = real_of_int (n * 2 ^ d) * 2 powi (e - 52)"
    by (simp add: round53_def e_def)
  also have "\<dots> = x"
    using \<open>2 powi k = 2 powi (e - 52) * (2::real) ^ d\<close> by (simp add: x)
  finally show ?thesis .
qed

lemma round53_ge_two_powi:
  assumes xk: "2 powi k \<le> x" and k: "- 1022 \<le> k"
  shows "2 powi k \<le> round53 x"
proof -
  define e where "e = binade x"
  have xpos: "0 < x" using xk two_powi_pos [of k] by linarith
  have "(2::real) powi (- 1022) \<le> 2 powi k"
    using k by (intro power_int_increasing) simp_all
  with xk xpos have "2 powi (- 1022) \<le> \<bar>x\<bar>" by simp
  then have lo: "2 powi e \<le> x" unfolding e_def using binade_lower [of x] xpos by simp
  have "\<bar>x\<bar> < 2 powi (e + 1)" unfolding e_def using xpos by (intro binade_upper) simp
  with xk xpos have "(2::real) powi k < 2 powi (e + 1)" by simp
  then have ke: "k \<le> e" using two_powi_less_cancel [of k "e + 1"] by simp
  have "real_of_int (2 ^ 52) = 2 powi e / 2 powi (e - 52)"
    by (simp add: two_powi_diff)
  also have "\<dots> \<le> x / 2 powi (e - 52)"
    using lo by (simp add: divide_right_mono)
  finally have "2 ^ 52 \<le> round_half_even (x / 2 powi (e - 52))"
    by (rule round_half_even_ge)
  then have "real_of_int (2 ^ 52) \<le> real_of_int (round_half_even (x / 2 powi (e - 52)))"
    by (simp only: of_int_le_iff)
  then have "real_of_int (2 ^ 52) * 2 powi (e - 52) \<le> round53 x"
    by (simp add: round53_def e_def mult_right_mono)
  moreover have "real_of_int (2 ^ 52) * 2 powi (e - 52) = 2 powi e"
    by (simp add: two_powi_diff)
  moreover have "(2::real) powi k \<le> 2 powi e"
    using ke by (intro power_int_increasing) simp_all
  ultimately show ?thesis by linarith
qed


lemma round53_abs_le_max_value:
  assumes "\<bar>x\<bar> < overflow_threshold"
  shows "\<bar>round53 x\<bar> \<le> max_value"
proof (cases "x = 0")
  case True
  then show ?thesis by (simp add: max_value_def)
next
  case False
  define e where "e = binade x"
  define q :: real where "q = 2 powi (e - 52)"
  define r where "r = round_half_even (x / q)"
  have qpos: "0 < q" by (simp add: q_def)
  have rx: "round53 x = real_of_int r * q"
    by (simp add: round53_def r_def q_def e_def)
  have up: "\<bar>x\<bar> < 2 powi (e + 1)"
    unfolding e_def using False by (rule binade_upper)
  have q53: "2 powi (e + 1) = 2 ^ 53 * q"
    by (simp add: q_def two_powi_diff two_powi_split)
  show ?thesis
  proof (cases "e \<le> 1022")
    case True
    from up q53 have "x < 2 ^ 53 * q" "- (2 ^ 53 * q) < x"
      by linarith+
    then have "x / q < 2 ^ 53" "- (2 ^ 53) < x / q"
      using qpos by (simp_all add: pos_divide_less_eq pos_less_divide_eq)
    then have "x / q \<le> real_of_int (2 ^ 53)" "real_of_int (- (2 ^ 53)) \<le> x / q"
      by simp_all
    then have "r \<le> 2 ^ 53" "- (2 ^ 53) \<le> r"
      unfolding r_def by (simp_all only: round_half_even_le round_half_even_ge)
    then have "\<bar>r\<bar> \<le> 2 ^ 53" by simp
    then have "real_of_int \<bar>r\<bar> \<le> real_of_int (2 ^ 53)"
      by (simp only: of_int_le_iff)
    then have "\<bar>real_of_int r\<bar> * q \<le> 2 ^ 53 * q"
      using qpos by (simp add: mult_right_mono)
    then have "\<bar>round53 x\<bar> \<le> 2 powi (e + 1)"
      using qpos by (simp add: rx q53 abs_mult)
    also have "\<dots> \<le> 2 powi 1023"
      using True by (intro power_int_increasing) simp_all
    also have "\<dots> \<le> max_value"
      by (simp add: max_value_def power_int_def)
    finally show ?thesis .
  next
    case False
    then have "- 1022 < e" by simp
    then have "2 powi e \<le> \<bar>x\<bar>"
      unfolding e_def using \<open>x \<noteq> 0\<close> by (intro binade_lower_normal) simp_all
    also note assms
    also have "overflow_threshold < 2 powi 1024"
      by (simp add: overflow_threshold_def power_int_def)
    finally have "e < 1024" by (rule two_powi_less_cancel)
    with False have e: "e = 1023" by simp
    have q: "q = 2 ^ 971" by (simp add: q_def e power_int_def)
    have "overflow_threshold = (2 ^ 53 - 1 / 2) * q"
      by (simp add: q overflow_threshold_def)
    with assms have "x < (2 ^ 53 - 1 / 2) * q" "- ((2 ^ 53 - 1 / 2) * q) < x"
      by linarith+
    then have "x / q < 2 ^ 53 - 1 / 2" "- (2 ^ 53 - 1 / 2) < x / q"
      using qpos by (simp_all only: pos_divide_less_eq pos_less_divide_eq mult_minus_left)
    then have "x / q < real_of_int (2 ^ 53) - 1 / 2" "real_of_int (- (2 ^ 53)) + 1 / 2 < x / q"
      by simp_all
    then have "r < 2 ^ 53" "- (2 ^ 53) < r"
      unfolding r_def by (simp_all only: round_half_even_less round_half_even_greater)
    then have "\<bar>r\<bar> \<le> 2 ^ 53 - 1" by simp
    then have "real_of_int \<bar>r\<bar> \<le> real_of_int (2 ^ 53 - 1)"
      by (simp only: of_int_le_iff)
    then have "\<bar>real_of_int r\<bar> * q \<le> (2 ^ 53 - 1) * q"
      using qpos by (simp add: mult_right_mono)
    then show ?thesis
      by (simp add: rx abs_mult q max_value_def)
  qed
qed


lemma round53_abs_le_two_powi:
  assumes xk: "\<bar>x\<bar> \<le> 2 powi k" and k: "- 1022 \<le> k"
  shows "\<bar>round53 x\<bar> \<le> 2 powi k"
proof (cases "x = 0")
  case True
  then show ?thesis by simp
next
  case False
  define e where "e = binade x"
  define q :: real where "q = 2 powi (e - 52)"
  define r where "r = round_half_even (x / q)"
  have qpos: "0 < q" by (simp add: q_def)
  have rx: "round53 x = real_of_int r * q"
    by (simp add: round53_def r_def q_def e_def)
  have ek: "e \<le> k"
  proof (cases "- 1022 < e")
    case True
    then have "2 powi e \<le> \<bar>x\<bar>"
      unfolding e_def using False by (intro binade_lower_normal) simp_all
    with xk have "(2::real) powi e \<le> 2 powi k" by linarith
    then show ?thesis by (rule two_powi_le_cancel)
  next
    case False
    with binade_ge [of x] have "e = - 1022" by (simp add: e_def)
    with k show ?thesis by simp
  qed
  define d where "d = nat (k - e + 52)"
  have "k = (e - 52) + int d" using ek by (simp add: d_def)
  then have kq: "2 powi k = q * (2::real) ^ d"
    by (simp add: q_def two_powi_split power_int_of_nat del: of_nat_diff)
  from xk kq have "x \<le> q * 2 ^ d" "- (q * 2 ^ d) \<le> x" by linarith+
  then have "x / q \<le> 2 ^ d" "- (2 ^ d) \<le> x / q"
    using qpos by (simp_all add: pos_divide_le_eq pos_le_divide_eq mult.commute)
  then have "x / q \<le> real_of_int (2 ^ d)" "real_of_int (- (2 ^ d)) \<le> x / q"
    by simp_all
  then have "r \<le> 2 ^ d" "- (2 ^ d) \<le> r"
    unfolding r_def by (simp_all only: round_half_even_le round_half_even_ge)
  then have "\<bar>r\<bar> \<le> 2 ^ d" by simp
  then have "real_of_int \<bar>r\<bar> \<le> real_of_int (2 ^ d)"
    by (simp only: of_int_le_iff)
  then have "\<bar>real_of_int r\<bar> * q \<le> 2 ^ d * q"
    using qpos by (simp add: mult_right_mono)
  then show ?thesis
    using qpos by (simp add: rx abs_mult kq mult.commute)
qed

subsection \<open>The rounding \<open>fl\<close>\<close>

lemma overflow_threshold_pos: "0 < overflow_threshold"
  by (simp add: overflow_threshold_def)

lemma max_value_less_threshold: "max_value < overflow_threshold"
  by (simp add: overflow_threshold_def max_value_def)

lemma fl_not_NaN [simp]: "fl x \<noteq> NaN"
  by (simp add: fl_def)

lemma fl_finite_iff: "is_finite (fl x) \<longleftrightarrow> \<bar>x\<bar> < overflow_threshold"
  using overflow_threshold_pos by (auto simp: fl_def)

lemma fl_PInf_iff: "fl x = PInf \<longleftrightarrow> overflow_threshold \<le> x"
  using overflow_threshold_pos by (auto simp: fl_def)

lemma fl_NInf_iff: "fl x = NInf \<longleftrightarrow> x \<le> - overflow_threshold"
  using overflow_threshold_pos by (auto simp: fl_def)

lemma fl_Fin: "\<bar>x\<bar> < overflow_threshold \<Longrightarrow> fl x = Fin (round53 x)"
  by (auto simp: fl_def)

lemma fl_in_range [simp]: "in_range (fl x)"
proof (cases "\<bar>x\<bar> < overflow_threshold")
  case True
  then show ?thesis by (simp add: fl_Fin round53_abs_le_max_value)
next
  case False
  then show ?thesis by (auto simp: fl_def)
qed

lemma fl_exact:
  assumes "x = real_of_int n * 2 powi k" and "\<bar>n\<bar> < 2 ^ 53" and "- 1074 \<le> k" and "k \<le> 970"
  shows "fl x = Fin x"
proof -
  from assms(2) have "real_of_int \<bar>n\<bar> < real_of_int (2 ^ 53)"
    by (simp only: of_int_less_iff)
  then have n: "\<bar>real_of_int n\<bar> < 2 ^ 53" by simp
  have "(2::real) powi k \<le> 2 powi 970"
    using assms(4) by (intro power_int_increasing) simp_all
  then have "\<bar>real_of_int n\<bar> * 2 powi k \<le> \<bar>real_of_int n\<bar> * 2 powi 970"
    by (intro mult_left_mono) simp_all
  also have "\<dots> < 2 ^ 53 * 2 powi 970"
    using n by (intro mult_strict_right_mono) simp_all
  also have "\<dots> < overflow_threshold"
    by (simp add: overflow_threshold_def power_int_def)
  finally have "\<bar>x\<bar> < overflow_threshold"
    by (simp add: assms(1) abs_mult)
  then have "fl x = Fin (round53 x)" by (rule fl_Fin)
  with round53_exact [OF assms(1-3)] show ?thesis by simp
qed

lemma fl_of_int: "\<bar>n\<bar> < 2 ^ 53 \<Longrightarrow> fl (real_of_int n) = Fin (real_of_int n)"
  by (rule fl_exact [where n = n and k = 0]) simp_all

lemma fl_eval:
  assumes "\<bar>x\<bar> < overflow_threshold"
    and "2 powi e \<le> \<bar>x\<bar>" and "\<bar>x\<bar> < 2 powi (e + 1)" and "- 1022 \<le> e"
    and "\<bar>x / 2 powi (e - 52) - real_of_int n\<bar> < 1 / 2"
  shows "fl x = Fin (real_of_int n * 2 powi (e - 52))"
  using assms by (simp add: fl_Fin round53_eval round_half_even_eval)

subsection \<open>Evaluating \<open>fl\<close> at given values\<close>

lemma two_powi_numeral: "(2::real) powi (numeral k) = 2 ^ numeral k"
  by (simp add: power_int_def)

lemma two_powi_neg_numeral: "(2::real) powi (- numeral k) = 1 / 2 ^ numeral k"
  by (simp add: power_int_def field_simps)

lemma two_powi_0: "(2::real) powi 0 = 1"
  by simp

lemma two_powi_1: "(2::real) powi 1 = 2"
  by simp

lemmas two_powi_eval = two_powi_numeral two_powi_neg_numeral two_powi_0 two_powi_1

lemma fl_value:
  assumes "\<bar>x\<bar> < overflow_threshold"
    and "- 1022 \<le> e" and "2 powi e \<le> \<bar>x\<bar>" and "\<bar>x\<bar> < 2 powi (e + 1)"
    and "\<bar>x / 2 powi (e - 52) - real_of_int n\<bar> < 1 / 2"
    and "r = real_of_int n * 2 powi (e - 52)"
  shows "fl x = Fin r"
  using fl_eval [of x e n] assms by simp

lemma fl_numeral: "numeral w < (2::int) ^ 53 \<Longrightarrow> fl (numeral w) = Fin (numeral w)"
  using fl_of_int [of "numeral w"] by simp

lemma fl_neg_numeral: "numeral w < (2::int) ^ 53 \<Longrightarrow> fl (- numeral w) = Fin (- numeral w)"
  using fl_of_int [of "- numeral w"] by simp

lemma fl_0 [simp]: "fl 0 = Fin 0"
  using fl_of_int [of 0] by simp

lemma fl_1 [simp]: "fl 1 = Fin 1"
  using fl_of_int [of 1] by simp

lemma fl_abs_le_two_powi:
  assumes "\<bar>x\<bar> \<le> 2 powi k" and "- 1022 \<le> k" and "k \<le> 1023"
  obtains r where "fl x = Fin r" and "\<bar>r\<bar> \<le> 2 powi k"
proof -
  have "(2::real) powi k \<le> 2 powi 1023"
    using assms(3) by (intro power_int_increasing) simp_all
  also have "\<dots> < overflow_threshold"
    by (simp add: overflow_threshold_def two_powi_eval)
  finally have "\<bar>x\<bar> < overflow_threshold" using assms(1) by linarith
  then have "fl x = Fin (round53 x)" by (rule fl_Fin)
  moreover have "\<bar>round53 x\<bar> \<le> 2 powi k"
    using assms(1,2) by (rule round53_abs_le_two_powi)
  ultimately show ?thesis using that by blast
qed

lemma fl_abs_le_pow:
  assumes "\<bar>x\<bar> \<le> 2 ^ k" and "k \<le> 1023"
  obtains r where "fl x = Fin r" and "\<bar>r\<bar> \<le> 2 ^ k"
proof -
  have "\<bar>x\<bar> \<le> 2 powi (int k)" using assms(1) by (simp add: power_int_of_nat)
  moreover have "- 1022 \<le> int k" "int k \<le> 1023" using assms(2) by simp_all
  ultimately obtain r where "fl x = Fin r" "\<bar>r\<bar> \<le> 2 powi (int k)"
    by (rule fl_abs_le_two_powi)
  then show ?thesis using that by (simp add: power_int_of_nat)
qed

text \<open>The literals \<^verbatim>\<open>1.95\<close>, \<^verbatim>\<open>0.66\<close> and \<^verbatim>\<open>0.1\<close>.\<close>

lemma fl_1_95: "fl (39 / 20) = Fin (8782019273372467 / 4503599627370496)"
  by (rule fl_value [where e = 0 and n = 8782019273372467])
     (simp_all add: overflow_threshold_def two_powi_eval)

lemma fl_0_66: "fl (33 / 50) = Fin (5944751508129055 / 9007199254740992)"
  by (rule fl_value [where e = "- 1" and n = 5944751508129055])
     (simp_all add: overflow_threshold_def two_powi_eval)

lemma fl_0_1: "fl (1 / 10) = Fin (3602879701896397 / 36028797018963968)"
  by (rule fl_value [where e = "- 4" and n = 7205759403792794])
     (simp_all add: overflow_threshold_def two_powi_eval)

section \<open>Properties of the calculator\<close>

subsection \<open>The two branches\<close>

lemma derived_complete:
  assumes "complete form"
  obtains hs ep kp where "sanitized_householdSize form = Some hs"
    and "sanitized_electricityPrice form = Some ep"
    and "sanitized_kwhPerPerson form = Some kp"
    and "derived form = derived_main form hs ep kp"
  using assms by (auto simp: complete_def derived_def)

lemma derived_incomplete: "\<not> complete form \<Longrightarrow> derived form = derived_guard form"
  by (auto simp: complete_def derived_def split: option.splits)

lemmas sanitize_defs = sanitized_householdSize_def sanitized_electricityPrice_def
  sanitized_kwhPerPerson_def sanitized_systemCost_def sanitized_grant_def
  clampInt_def clampMin_def or_zero_def lit_0_1_def

subsection \<open>The cash-flow loop\<close>

lemma length_cashflow [simp]: "length (cashflow nas c ys) = length ys"
  by (induction ys arbitrary: c) (simp_all add: Let_def)

lemma map_year_cashflow [simp]: "map year (cashflow nas c ys) = ys"
  by (induction ys arbitrary: c) (simp_all add: Let_def)

lemma running_total_shift:
  "running_total nas (js_add c nas) i = running_total nas c (Suc i)"
  by (induction i) simp_all

lemma val_cashflow_pos:
  "\<forall>y \<in> set ys. 0 < y \<Longrightarrow> i < length ys \<Longrightarrow>
     val (cashflow nas c ys ! i) = js_round (running_total nas c (Suc i))"
proof (induction ys arbitrary: c i)
  case Nil
  then show ?case by simp
next
  case (Cons y ys)
  show ?case
  proof (cases i)
    case 0
    with Cons.prems show ?thesis by (simp add: Let_def)
  next
    case (Suc j)
    with Cons.prems have "j < length ys" and "\<forall>y \<in> set ys. 0 < y" and "0 < y"
      by simp_all
    with Cons.IH [of j "js_add c nas"] Suc show ?thesis
      by (simp add: Let_def running_total_shift)
  qed
qed

lemma years_upto_Suc: "years_upto (Suc h) = 0 # [1..<Suc h]"
  by (simp add: years_upto_def upt_rec)

lemma val_cashflow_years:
  assumes "i \<le> h"
  shows "val (cashflow nas c (years_upto (Suc h)) ! i) = js_round (running_total nas c i)"
proof (cases i)
  case 0
  then show ?thesis
    unfolding years_upto_Suc by (simp add: Let_def)
next
  case (Suc j)
  with assms have "j < length [1..<Suc h]" by simp
  moreover have "\<forall>y \<in> set [1..<Suc h]. 0 < y" by auto
  ultimately have "val (cashflow nas c [1..<Suc h] ! j) = js_round (running_total nas c (Suc j))"
    by (rule val_cashflow_pos [rotated])
  then show ?thesis
    unfolding years_upto_Suc Suc by (simp add: Let_def)
qed

lemma upt_16: "[0..<16] = [0, 1, 2, 3, 4, 5, 6, 7, 8, 9, 10, 11, 12, 13, 14, 15]"
  by (simp add: upt_rec)

subsection \<open>Parsing\<close>

lemmas parse_defs = js_Number_def trim_def is_space_def parse_decimal_def
  parse_unsigned_def parse_unsigned_decimal_def is_digit_def digit_of_def
  parse_exponent_def parse_radix_def decimal_digits_def

lemma parseNum_finite: "parseNum v = Some n \<Longrightarrow> is_finite n"
  by (auto simp: parseNum_def Let_def split: raw.splits if_splits)

lemma parseNum_Fin:
  assumes "parseNum v = Some n"
  obtains x where "n = Fin x"
  using parseNum_finite [OF assms] by (cases n) auto

lemma parseNum_empty [simp]: "parseNum (RStr []) = None"
  by (simp add: parseNum_def)

lemma parseNum_abc: "parseNum (RStr ''abc'') = None"
  by (simp add: parseNum_def parse_defs)

lemma lit_0_1_value: "lit_0_1 = Fin (3602879701896397 / 36028797018963968)"
  by (simp add: lit_0_1_def fl_0_1)

lemma fl_2_7: "fl (27 / 10) = Fin (3039929748475085 / 1125899906842624)"
  by (rule fl_value [where e = 1 and n = 6079859496950170])
     (simp_all add: overflow_threshold_def two_powi_eval)

lemma parseNum_2_7: "parseNum (RStr ''2,7'') = Some (Fin (3039929748475085 / 1125899906842624))"
  by (simp add: parseNum_def parse_defs fl_2_7)

lemma fl_0_05: "fl (1 / 20) = Fin (3602879701896397 / 72057594037927936)"
  by (rule fl_value [where e = "- 5" and n = 7205759403792794])
     (simp_all add: overflow_threshold_def two_powi_eval)

lemma parseNum_1_95: "parseNum (RStr ''1,95'') = Some (Fin (8782019273372467 / 4503599627370496))"
  by (simp add: parseNum_def parse_defs fl_1_95)

lemma parseNum_0_05: "parseNum (RStr ''0,05'') = Some (Fin (3602879701896397 / 72057594037927936))"
  by (simp add: parseNum_def parse_defs fl_0_05)

lemma parseNum_minus_5: "parseNum (RStr ''-5'') = Some (Fin (- 5))"
  by (simp add: parseNum_def parse_defs fl_numeral)

lemma parseNum_250: "parseNum (RStr ''250'') = Some (Fin 250)"
  by (simp add: parseNum_def parse_defs fl_numeral)

subsection \<open>The upfront cost\<close>

lemma clampInt_zero:
  obtains a where "or_zero (clampInt (parseNum v) (Fin 0)) = Fin a" and "0 \<le> a"
proof (cases "parseNum v")
  case None
  then have "or_zero (clampInt (parseNum v) (Fin 0)) = Fin 0"
    by (simp add: or_zero_def clampInt_def)
  then show ?thesis using that by simp
next
  case (Some n)
  then obtain x where "n = Fin x" by (rule parseNum_Fin)
  with Some have "or_zero (clampInt (parseNum v) (Fin 0)) = Fin (max 0 (of_int \<lfloor>x\<rfloor>))"
    by (simp add: or_zero_def clampInt_def)
  then show ?thesis using that by simp
qed

lemma sanitized_systemCost_Fin:
  obtains a where "sanitized_systemCost form = Fin a" and "0 \<le> a"
  unfolding sanitized_systemCost_def by (rule clampInt_zero)

lemma sanitized_grant_Fin:
  obtains b where "sanitized_grant form = Fin b" and "0 \<le> b"
  unfolding sanitized_grant_def by (rule clampInt_zero)

lemma fl_cases:
  obtains "fl x = PInf" and "overflow_threshold \<le> x"
  | "fl x = NInf" and "x \<le> - overflow_threshold"
  | "fl x = Fin (round53 x)" and "\<bar>x\<bar> < overflow_threshold"
proof (cases "overflow_threshold \<le> x")
  case True
  then show ?thesis using that(1) by (simp add: fl_def)
next
  case False
  show ?thesis
  proof (cases "x \<le> - overflow_threshold")
    case True
    with False show ?thesis using that(2) by (simp add: fl_def)
  next
    case n: False
    with False have "\<bar>x\<bar> < overflow_threshold" by simp
    with False n show ?thesis using that(3) by (simp add: fl_def)
  qed
qed

lemma js_max_fl_zero_ge: "js_ge (js_max (fl x) (Fin 0)) (Fin 0)"
  by (cases x rule: fl_cases) (simp_all add: js_ge_def)

lemma js_max_fl_zero_nonpos:
  assumes "x \<le> 0"
  shows "js_max (fl x) (Fin 0) = Fin 0"
proof (cases x rule: fl_cases)
  case 1
  with assms overflow_threshold_pos show ?thesis by simp
next
  case 2
  then show ?thesis by simp
next
  case 3
  with round53_nonpos [OF assms] show ?thesis by (simp add: max_def)
qed

lemma upfront_derived:
  "upfront (derived form) =
     js_max (js_sub (sanitized_systemCost form) (sanitized_grant form)) (Fin 0)"
  by (simp add: derived_def derived_main_def derived_guard_def Let_def split: option.splits)

lemma parseNum_30000: "parseNum (RStr ''30000'') = Some (Fin 30000)"
  by (simp add: parseNum_def parse_defs fl_numeral)

subsection \<open>The defaults, evaluated\<close>

lemma defaults_kwh: "js_mul (Fin 3) (Fin 1000) = Fin 3000"
  by (simp add: fl_numeral fl_neg_numeral)

lemma defaults_cost: "js_mul (Fin 3000) (Fin (8782019273372467 / 4503599627370496)) = Fin 5850"
  by (simp, rule fl_value [where e = 12 and n = 6432143022489600])
     (simp_all add: overflow_threshold_def two_powi_eval)

lemma defaults_savings: "js_mul (Fin 5850) (Fin (5944751508129055 / 9007199254740992)) = Fin 3861"
  by (simp, rule fl_value [where e = 11 and n = 8490428789686272])
     (simp_all add: overflow_threshold_def two_powi_eval)

lemma defaults_payback: "js_div (Fin 29000) (Fin 3861) = Fin (4228321328468803 / 562949953421312)"
  by (simp, rule fl_value [where e = 2 and n = 8456642656937606])
     (simp_all add: overflow_threshold_def two_powi_eval)

lemma defaults_ten: "js_mul (Fin 3861) (Fin 10) = Fin 38610"
  by (simp add: fl_numeral fl_neg_numeral)

lemma defaults_roi: "js_div (Fin 9610) (Fin 29000) = Fin (2984799477174515 / 9007199254740992)"
  by (simp, rule fl_value [where e = "- 2" and n = 5969598954349030])
     (simp_all add: overflow_threshold_def two_powi_eval)

lemma complete_defaultInputs: "complete defaultInputs"
  by (simp add: complete_def defaultInputs_def sanitize_defs parseNum_def fl_1_95 fl_0_1)

lemma derived_defaultInputs:
  "derived defaultInputs =
     \<lparr>annualHotWaterKwh = Fin 3000,
      annualHotWaterCost = Fin 5850,
      annualSavings = Fin 3861,
      netAnnualSavings = Fin 3861,
      upfront = Fin 29000,
      paybackYears = Fin (4228321328468803 / 562949953421312),
      data =
      [\<lparr>year = 0, val = Fin (- 29000)\<rparr>,
       \<lparr>year = 1, val = Fin (- 25139)\<rparr>,
       \<lparr>year = 2, val = Fin (- 21278)\<rparr>,
       \<lparr>year = 3, val = Fin (- 17417)\<rparr>,
       \<lparr>year = 4, val = Fin (- 13556)\<rparr>,
       \<lparr>year = 5, val = Fin (- 9695)\<rparr>,
       \<lparr>year = 6, val = Fin (- 5834)\<rparr>,
       \<lparr>year = 7, val = Fin (- 1973)\<rparr>,
       \<lparr>year = 8, val = Fin 1888\<rparr>,
       \<lparr>year = 9, val = Fin 5749\<rparr>,
       \<lparr>year = 10, val = Fin 9610\<rparr>,
       \<lparr>year = 11, val = Fin 13471\<rparr>,
       \<lparr>year = 12, val = Fin 17332\<rparr>,
       \<lparr>year = 13, val = Fin 21193\<rparr>,
       \<lparr>year = 14, val = Fin 25054\<rparr>,
       \<lparr>year = 15, val = Fin 28915\<rparr>],
      tenYearRoi = Fin (2984799477174515 / 9007199254740992)\<rparr>"
  by (simp add: derived_def defaultInputs_def sanitize_defs parseNum_def fl_1_95 fl_0_66 fl_0_1
        derived_main_def Let_def js_sub_def years_upto_def upt_16
        defaults_cost defaults_kwh defaults_payback defaults_roi defaults_savings defaults_ten
        fl_numeral fl_neg_numeral
        del: js_mul.simps js_div.simps)


subsection \<open>The defaults with the price 1,96, evaluated\<close>

lemma fl_1_96: "fl (49 / 25) = Fin (2206763817411543 / 1125899906842624)"
  by (rule fl_value [where e = 0 and n = 8827055269646172])
     (simp_all add: overflow_threshold_def two_powi_eval)

lemma price_1_96_kwh: "js_mul (Fin 3) (Fin 1000) = Fin 3000"
  by (simp add: fl_numeral fl_neg_numeral)

lemma price_1_96_cost: "js_mul (Fin 3000) (Fin (2206763817411543 / 1125899906842624)) = Fin 5880"
  by (simp, rule fl_value [where e = 12 and n = 6465128371322880])
     (simp_all add: overflow_threshold_def two_powi_eval)

lemma price_1_96_savings: "js_mul (Fin 5880) (Fin (5944751508129055 / 9007199254740992)) = Fin (4266984725073101 / 1099511627776)"
  by (simp, rule fl_value [where e = 11 and n = 8533969450146202])
     (simp_all add: overflow_threshold_def two_powi_eval)

lemma price_1_96_net: "js_add (Fin (4266984725073101 / 1099511627776)) (Fin 0) = Fin (4266984725073101 / 1099511627776)"
  by (simp, rule fl_value [where e = 11 and n = 8533969450146202])
     (simp_all add: overflow_threshold_def two_powi_eval)

lemma price_1_96_upfront: "js_add (Fin 29000) (Fin 0) = Fin 29000"
  by (simp add: fl_numeral fl_neg_numeral)

lemma price_1_96_total_1: "js_add (Fin (- 29000)) (Fin (4266984725073101 / 1099511627776)) = Fin (- (6904713120107725 / 274877906944))"
  by (simp, rule fl_value [where e = 14 and n = "- 6904713120107725"])
     (simp_all add: overflow_threshold_def two_powi_eval)

lemma price_1_96_total_2: "js_add (Fin (- (6904713120107725 / 274877906944))) (Fin (4266984725073101 / 1099511627776)) = Fin (- (2918983469419725 / 137438953472))"
  by (simp, rule fl_value [where e = 14 and n = "- 5837966938839450"])
     (simp_all add: overflow_threshold_def two_powi_eval)

lemma price_1_96_total_3: "js_add (Fin (- (2918983469419725 / 137438953472))) (Fin (4266984725073101 / 1099511627776)) = Fin (- (4771220757571175 / 274877906944))"
  by (simp, rule fl_value [where e = 14 and n = "- 4771220757571175"])
     (simp_all add: overflow_threshold_def two_powi_eval)

lemma price_1_96_recurrence: "js_add (Fin (- 21238)) (Fin (4266984725073101 / 1099511627776)) = Fin (- (4771110806408397 / 274877906944))"
  by (simp, rule fl_value [where e = 14 and n = "- 4771110806408397"])
     (simp_all add: overflow_threshold_def two_powi_eval)

lemma parse_1_96: "parseNum (RStr ''1,96'') = Some (Fin (2206763817411543 / 1125899906842624))"
  by (simp add: parseNum_def parse_defs fl_1_96)

lemma derived_price_1_96:
  "complete price_1_96 \<and>
   netAnnualSavings (derived price_1_96) = Fin (4266984725073101 / 1099511627776) \<and>
   val (data (derived price_1_96) ! 2) = Fin (- 21238) \<and>
   val (data (derived price_1_96) ! 3) = Fin (- 17358)"
  by (simp add: complete_def derived_def price_1_96_def defaultInputs_def sanitize_defs
        parseNum_def [of "RNum _"] parse_1_96 fl_0_1 fl_0_66 fl_numeral
        derived_main_def Let_def js_sub_def years_upto_def upt_16
        price_1_96_cost price_1_96_kwh price_1_96_net price_1_96_savings price_1_96_total_1 price_1_96_total_2 price_1_96_total_3 price_1_96_upfront
        del: js_mul.simps js_add.simps js_div.simps)

subsection \<open>Large values\<close>

lemma fl_bounds:
  assumes "2 powi k \<le> x" and "- 1022 \<le> k" and "x < overflow_threshold"
  obtains r where "fl x = Fin r" and "2 powi k \<le> r" and "r \<le> max_value"
proof -
  have "0 < x" using assms(1) two_powi_pos [of k] by linarith
  with assms(3) have a: "\<bar>x\<bar> < overflow_threshold" by simp
  then have "fl x = Fin (round53 x)" by (rule fl_Fin)
  moreover have "2 powi k \<le> round53 x"
    using assms(1,2) by (rule round53_ge_two_powi)
  moreover have "round53 x \<le> max_value"
    using round53_abs_le_max_value [OF a] by linarith
  ultimately show ?thesis using that by blast
qed

lemma max_value_int: "max_value = real_of_int (2 ^ 1024 - 2 ^ 971)"
  by (simp add: max_value_def)

lemma floor_bounds:
  assumes "2 ^ k \<le> r" and "r \<le> max_value"
  shows "2 ^ k \<le> real_of_int \<lfloor>r\<rfloor>" and "real_of_int \<lfloor>r\<rfloor> \<le> max_value"
proof -
  have "real_of_int (2 ^ k) \<le> r" using assms(1) by simp
  then have "2 ^ k \<le> \<lfloor>r\<rfloor>" by (simp only: le_floor_iff)
  then have "real_of_int (2 ^ k) \<le> real_of_int \<lfloor>r\<rfloor>" by (simp only: of_int_le_iff)
  then show "2 ^ k \<le> real_of_int \<lfloor>r\<rfloor>" by simp
  show "real_of_int \<lfloor>r\<rfloor> \<le> max_value"
    using assms(2) of_int_floor_le [of r] by linarith
qed

lemma parseNum_1e308:
  obtains r where "parseNum (RStr ''1e308'') = Some (Fin r)"
    and "2 ^ 1023 \<le> r" and "r \<le> max_value"
proof -
  have n: "js_Number ''1e308'' = fl (10 ^ 308)"
    by (simp add: parse_defs two_powi_eval power_int_def)
  have "(2::real) powi 1023 \<le> 10 ^ 308" "(10::real) ^ 308 < overflow_threshold"
    by (simp_all add: two_powi_eval overflow_threshold_def)
  then obtain r where r: "fl (10 ^ 308) = Fin r" "2 powi 1023 \<le> r" "r \<le> max_value"
    using fl_bounds [of 1023 "10 ^ 308"] by auto
  have "parseNum (RStr ''1e308'') = Some (Fin r)"
    by (simp add: parseNum_def n r del: power_numeral)
  with r show ?thesis using that by (simp add: two_powi_eval)
qed


lemma fl_half: "fl (1 / 2) = Fin (1 / 2)"
  by (rule fl_exact [where n = 1 and k = "- 1"]) (simp_all add: two_powi_eval)

lemma derived_cost_1e308:
  "complete cost_1e308 \<and>
   netAnnualSavings (derived cost_1e308) = Fin (1 / 2) \<and>
   paybackYears (derived cost_1e308) = PInf"
proof -
  obtain r where r: "parseNum (RStr ''1e308'') = Some (Fin r)" "2 ^ 1023 \<le> r" "r \<le> max_value"
    by (rule parseNum_1e308)
  define c where "c = real_of_int \<lfloor>r\<rfloor>"
  have c: "2 ^ 1023 \<le> c" "c \<le> max_value"
    unfolding c_def using r(2,3) by (rule floor_bounds)+
  have sc: "sanitized_systemCost cost_1e308 = Fin c"
    using c(1) by (simp add: cost_1e308_def defaultInputs_def sanitize_defs r(1) c_def max_def)
  have gr: "sanitized_grant cost_1e308 = Fin 0"
    by (simp add: cost_1e308_def defaultInputs_def sanitize_defs parseNum_def)
  have "(2::real) powi 1023 \<le> c" "c < overflow_threshold"
    using c max_value_less_threshold by (simp_all add: two_powi_eval)
  then obtain u where u: "fl c = Fin u" "2 powi 1023 \<le> u"
    using fl_bounds [of 1023 c] by auto
  then have u': "2 ^ 1023 \<le> u" by (simp add: two_powi_eval)
  have up: "js_max (js_sub (sanitized_systemCost cost_1e308) (sanitized_grant cost_1e308)) (Fin 0) = Fin u"
    using u' by (simp add: sc gr js_sub_def u(1) max_def)
  have hs: "sanitized_householdSize cost_1e308 = Some (Fin 3)"
    and kp: "sanitized_kwhPerPerson cost_1e308 = Some (Fin 1000)"
    and ep: "sanitized_electricityPrice cost_1e308 = Some (Fin (8782019273372467 / 4503599627370496))"
    by (simp_all add: cost_1e308_def defaultInputs_def sanitize_defs parseNum_def fl_1_95 fl_0_1)
  have nas: "js_max (js_sub (js_mul (js_mul (js_mul (Fin 3) (Fin 1000))
        (Fin (8782019273372467 / 4503599627370496))) (savingsRatio cost_1e308))
        (maintenance cost_1e308)) (Fin 0) = Fin (1 / 2)"
    by (simp add: cost_1e308_def defaultInputs_def fl_0_66 defaults_kwh defaults_cost defaults_savings
          js_sub_def fl_half del: js_mul.simps)
  have "overflow_threshold \<le> u / (1 / 2)"
    using u' by (simp add: overflow_threshold_def)
  then have pay: "js_div (Fin u) (Fin (1 / 2)) = PInf"
    by (simp add: fl_PInf_iff)
  have d: "derived cost_1e308 = derived_main cost_1e308 (Fin 3)
      (Fin (8782019273372467 / 4503599627370496)) (Fin 1000)"
    by (simp add: derived_def hs kp ep)
  have "complete cost_1e308"
    by (simp add: complete_def hs kp ep)
  moreover have "netAnnualSavings (derived cost_1e308) = Fin (1 / 2)"
    unfolding d by (simp add: derived_main_def Let_def nas del: js_mul.simps)
  moreover have "paybackYears (derived cost_1e308) = PInf"
    unfolding d by (simp add: derived_main_def Let_def nas up pay del: js_mul.simps js_div.simps)
  ultimately show ?thesis by simp
qed

lemma upfront_nonneg:
  assumes "upfront (derived form) = Fin u"
  shows "0 \<le> u"
proof -
  obtain a where a: "sanitized_systemCost form = Fin a"
    by (rule sanitized_systemCost_Fin)
  obtain b where b: "sanitized_grant form = Fin b"
    by (rule sanitized_grant_Fin)
  have "js_ge (upfront (derived form)) (Fin 0)"
    unfolding upfront_derived a b js_sub_def by (simp add: js_max_fl_zero_ge)
  with assms show ?thesis by (simp add: js_ge_def)
qed

lemma derived_maintenance_5000:
  "complete maintenance_5000 \<and> netAnnualSavings (derived maintenance_5000) = Fin 0"
  by (simp add: complete_def derived_def maintenance_5000_def defaultInputs_def sanitize_defs
        parseNum_def fl_1_95 fl_0_66 fl_0_1 derived_main_def Let_def js_sub_def
        defaults_kwh defaults_cost defaults_savings fl_numeral fl_neg_numeral
        del: js_mul.simps js_div.simps)

subsection \<open>Overflow\<close>

lemma parseNum_1e306:
  obtains r where "parseNum (RStr ''1e306'') = Some (Fin r)"
    and "2 ^ 1016 \<le> r" and "r \<le> max_value"
proof -
  have n: "js_Number ''1e306'' = fl (10 ^ 306)"
    by (simp add: parse_defs two_powi_eval power_int_def)
  have "(2::real) powi 1016 \<le> 10 ^ 306" "(10::real) ^ 306 < overflow_threshold"
    by (simp_all add: two_powi_eval overflow_threshold_def)
  then obtain r where r: "fl (10 ^ 306) = Fin r" "2 powi 1016 \<le> r" "r \<le> max_value"
    using fl_bounds [of 1016 "10 ^ 306"] by auto
  have "parseNum (RStr ''1e306'') = Some (Fin r)"
    by (simp add: parseNum_def n r del: power_numeral)
  with r show ?thesis using that by (simp add: two_powi_eval)
qed

lemma derived_household_1e306:
  "complete household_1e306 \<and>
   annualHotWaterKwh (derived household_1e306) = PInf \<and>
   annualHotWaterCost (derived household_1e306) = PInf \<and>
   annualSavings (derived household_1e306) = PInf \<and>
   netAnnualSavings (derived household_1e306) = PInf \<and>
   tenYearRoi (derived household_1e306) = PInf \<and>
   val (data (derived household_1e306) ! 1) = PInf"
proof -
  obtain r where r: "parseNum (RStr ''1e306'') = Some (Fin r)" "2 ^ 1016 \<le> r" "r \<le> max_value"
    by (rule parseNum_1e306)
  define c where "c = real_of_int \<lfloor>r\<rfloor>"
  have c: "2 ^ 1016 \<le> c"
    unfolding c_def using r(2,3) by (rule floor_bounds)
  have hs: "sanitized_householdSize household_1e306 = Some (Fin c)"
    using c by (simp add: household_1e306_def defaultInputs_def sanitize_defs r(1) c_def max_def)
  have kp: "sanitized_kwhPerPerson household_1e306 = Some (Fin 1000)"
    and ep: "sanitized_electricityPrice household_1e306 =
      Some (Fin (8782019273372467 / 4503599627370496))"
    and sc: "sanitized_systemCost household_1e306 = Fin 29000"
    and gr: "sanitized_grant household_1e306 = Fin 0"
    by (simp_all add: household_1e306_def defaultInputs_def sanitize_defs parseNum_def
          fl_1_95 fl_0_1)
  have sr: "savingsRatio household_1e306 = Fin (5944751508129055 / 9007199254740992)"
    and mt: "maintenance household_1e306 = Fin 0"
    and hz: "horizonYears household_1e306 = 15"
    by (simp_all add: household_1e306_def defaultInputs_def fl_0_66)
  have "overflow_threshold \<le> c * 1000"
    using c by (simp add: overflow_threshold_def)
  then have kwh: "fl (c * 1000) = PInf"
    by (simp add: fl_PInf_iff)
  have d: "derived household_1e306 = derived_main household_1e306 (Fin c)
      (Fin (8782019273372467 / 4503599627370496)) (Fin 1000)"
    by (simp add: derived_def hs kp ep)
  have "complete household_1e306"
    by (simp add: complete_def hs kp ep)
  moreover have "annualHotWaterKwh (derived household_1e306) = PInf"
    unfolding d by (simp add: derived_main_def Let_def kwh)
  moreover have "annualHotWaterCost (derived household_1e306) = PInf"
    unfolding d by (simp add: derived_main_def Let_def kwh signed_inf_def)
  moreover have s: "annualSavings (derived household_1e306) = PInf"
    unfolding d
    by (simp add: derived_main_def Let_def kwh signed_inf_def sr mt hz)
  moreover have n: "netAnnualSavings (derived household_1e306) = PInf"
    unfolding d
    by (simp add: derived_main_def Let_def kwh signed_inf_def sr mt hz js_sub_def)
  moreover have "tenYearRoi (derived household_1e306) = PInf"
    unfolding d
    by (simp add: derived_main_def Let_def kwh signed_inf_def sr mt hz js_sub_def sc gr fl_numeral)
  moreover have "val (data (derived household_1e306) ! 1) = PInf"
    unfolding d
    by (simp add: derived_main_def Let_def kwh signed_inf_def sr mt hz js_sub_def sc gr fl_numeral years_upto_def upt_16)
  ultimately show ?thesis by simp
qed

subsection \<open>Finite results\<close>

lemma max_value_nonneg: "0 \<le> max_value"
  by (simp add: max_value_def)

lemma in_range_js_neg [simp]: "in_range (js_neg n) = in_range n"
  by (cases n) simp_all

lemma in_range_parse_unsigned: "in_range (parse_unsigned s)"
  by (simp add: parse_unsigned_def split: option.splits)

lemma in_range_parse_decimal: "in_range (parse_decimal s)"
  by (simp add: parse_decimal_def in_range_parse_unsigned split: list.splits)

lemma in_range_parse_radix: "in_range (parse_radix r s)"
  by (simp add: parse_radix_def split: option.splits)

lemma in_range_js_Number: "in_range (js_Number s)"
  by (simp add: js_Number_def Let_def in_range_parse_decimal in_range_parse_radix
        max_value_nonneg split: list.splits)

lemma parseNum_in_range:
  assumes "wf_raw v" and "parseNum v = Some n"
  shows "in_range n"
  using assms
  by (cases v) (auto simp: parseNum_def Let_def in_range_js_Number split: if_splits)

lemma parseNum_bounded:
  assumes "wf_raw v" and "parseNum v = Some n"
  obtains x where "n = Fin x" and "\<bar>x\<bar> \<le> max_value"
proof -
  from assms(2) obtain x where x: "n = Fin x" by (rule parseNum_Fin)
  with parseNum_in_range [OF assms] have "\<bar>x\<bar> \<le> max_value" by simp
  with x show ?thesis using that by blast
qed

lemma floor_le_max_value:
  assumes "\<bar>x\<bar> \<le> max_value"
  shows "real_of_int \<lfloor>x\<rfloor> \<le> max_value"
  using assms of_int_floor_le [of x] by linarith

lemma clampInt_zero_bounded:
  assumes "wf_raw v"
  obtains a where "or_zero (clampInt (parseNum v) (Fin 0)) = Fin a" and "0 \<le> a"
    and "a \<le> max_value"
proof (cases "parseNum v")
  case None
  then have "or_zero (clampInt (parseNum v) (Fin 0)) = Fin 0"
    by (simp add: or_zero_def clampInt_def)
  then show ?thesis using that max_value_nonneg by simp
next
  case (Some n)
  with assms obtain x where x: "n = Fin x" "\<bar>x\<bar> \<le> max_value"
    by (rule parseNum_bounded)
  with Some have "or_zero (clampInt (parseNum v) (Fin 0)) = Fin (max 0 (of_int \<lfloor>x\<rfloor>))"
    by (simp add: or_zero_def clampInt_def)
  moreover have "max 0 (real_of_int \<lfloor>x\<rfloor>) \<le> max_value"
    using floor_le_max_value [OF x(2)] max_value_nonneg by simp
  ultimately show ?thesis using that by simp
qed

lemma fl_diff_finite:
  assumes "0 \<le> a" and "a \<le> max_value" and "0 \<le> b" and "b \<le> max_value"
  obtains r where "fl (a - b) = Fin r"
proof -
  have "\<bar>a - b\<bar> \<le> max_value" using assms by linarith
  with max_value_less_threshold have "\<bar>a - b\<bar> < overflow_threshold" by linarith
  then have "fl (a - b) = Fin (round53 (a - b))" by (rule fl_Fin)
  then show ?thesis using that by blast
qed

lemma upfront_finite:
  assumes "wf_raw (systemCost form)" and "wf_raw (grant form)"
  shows "is_finite (upfront (derived form))"
proof -
  obtain a where a: "sanitized_systemCost form = Fin a" "0 \<le> a" "a \<le> max_value"
    unfolding sanitized_systemCost_def using assms(1) by (rule clampInt_zero_bounded)
  obtain b where b: "sanitized_grant form = Fin b" "0 \<le> b" "b \<le> max_value"
    unfolding sanitized_grant_def using assms(2) by (rule clampInt_zero_bounded)
  obtain r where "fl (a - b) = Fin r"
    using a(2,3) b(2,3) by (rule fl_diff_finite)
  then show ?thesis
    by (simp add: upfront_derived a(1) b(1) js_sub_def)
qed

lemma js_mul_inf_not_finite:
  assumes "\<not> is_finite a"
  shows "\<not> is_finite (js_mul a (Fin p))"
  using assms by (cases a) (simp_all add: signed_inf_def)

lemma js_add_Fin_not_NaN: "c \<noteq> NaN \<Longrightarrow> js_add c (Fin n) \<noteq> NaN"
  by (cases c) simp_all

lemma js_div_Fin_not_NaN: "c \<noteq> NaN \<Longrightarrow> u \<noteq> 0 \<Longrightarrow> js_div c (Fin u) \<noteq> NaN"
  by (cases c) (simp_all add: signed_inf_def)

lemma js_round_not_NaN: "c \<noteq> NaN \<Longrightarrow> js_round c \<noteq> NaN"
  by (cases c) simp_all

lemma cashflow_not_NaN:
  "c \<noteq> NaN \<Longrightarrow> p \<in> set (cashflow (Fin n) c ys) \<Longrightarrow> val p \<noteq> NaN"
proof (induction ys arbitrary: c)
  case Nil
  then show ?case by simp
next
  case (Cons y ys)
  define c' where "c' = (if 0 < y then js_add c (Fin n) else c)"
  have c': "c' \<noteq> NaN"
    using Cons.prems(1) by (simp add: c'_def js_add_Fin_not_NaN)
  from Cons.prems(2) have "p = \<lparr>year = y, val = js_round c'\<rparr> \<or> p \<in> set (cashflow (Fin n) c' ys)"
    by (simp add: c'_def Let_def)
  then show ?case
  proof
    assume "p = \<lparr>year = y, val = js_round c'\<rparr>"
    with c' show ?thesis by (simp add: js_round_not_NaN)
  next
    assume "p \<in> set (cashflow (Fin n) c' ys)"
    with c' show ?thesis by (rule Cons.IH)
  qed
qed


lemma fl_finite_cases:
  assumes "is_finite (fl x)"
  shows "fl x = Fin (round53 x)" and "\<bar>round53 x\<bar> \<le> max_value"
proof -
  from assms have a: "\<bar>x\<bar> < overflow_threshold" by (simp add: fl_finite_iff)
  then show "fl x = Fin (round53 x)" by (rule fl_Fin)
  from a show "\<bar>round53 x\<bar> \<le> max_value" by (rule round53_abs_le_max_value)
qed

lemma main_finite:
  assumes a: "1 \<le> a" and b: "500 \<le> b" and p: "0 < p"
    and s: "0 \<le> s" "s \<le> 1" and m: "0 \<le> m" "m \<le> max_value"
    and fin: "is_finite (js_mul (js_mul (Fin a) (Fin b)) (Fin p))"
  obtains k c v n where "js_mul (Fin a) (Fin b) = Fin k"
    and "js_mul (Fin k) (Fin p) = Fin c"
    and "js_mul (Fin c) (Fin s) = Fin v"
    and "js_max (js_sub (Fin v) (Fin m)) (Fin 0) = Fin n"
proof -
  have "is_finite (js_mul (Fin a) (Fin b))"
    using fin js_mul_inf_not_finite by blast
  then have fk: "is_finite (fl (a * b))" by simp
  define k where "k = round53 (a * b)"
  have k: "fl (a * b) = Fin k" unfolding k_def using fk by (rule fl_finite_cases)
  have "0 \<le> a * b" using a b by simp
  then have k0: "0 \<le> k" unfolding k_def by (rule round53_nonneg)
  from fin k have fc: "is_finite (fl (k * p))" by simp
  define c where "c = round53 (k * p)"
  have c: "fl (k * p) = Fin c" and cm: "\<bar>c\<bar> \<le> max_value"
    unfolding c_def using fc by (rule fl_finite_cases)+
  have "0 \<le> k * p" using k0 p by simp
  then have c0: "0 \<le> c" unfolding c_def by (rule round53_nonneg)
  have "c * s \<le> c * 1" using s(2) c0 by (intro mult_left_mono) simp_all
  moreover have cs0: "0 \<le> c * s" using c0 s(1) by simp
  ultimately have "\<bar>c * s\<bar> < overflow_threshold"
    using cm max_value_less_threshold by simp
  then have "is_finite (fl (c * s))" by (simp add: fl_finite_iff)
  define v where "v = round53 (c * s)"
  have v: "fl (c * s) = Fin v" and vm: "\<bar>v\<bar> \<le> max_value"
    unfolding v_def using \<open>is_finite (fl (c * s))\<close> by (rule fl_finite_cases)+
  have v0: "0 \<le> v" unfolding v_def using cs0 by (rule round53_nonneg)
  from vm have "v \<le> max_value" by linarith
  with v0 obtain r where r: "fl (v - m) = Fin r"
    using m fl_diff_finite by blast
  have "js_mul (Fin a) (Fin b) = Fin k" by (simp add: k)
  moreover have "js_mul (Fin k) (Fin p) = Fin c" by (simp add: c)
  moreover have "js_mul (Fin c) (Fin s) = Fin v" by (simp add: v)
  moreover have "js_max (js_sub (Fin v) (Fin m)) (Fin 0) = Fin (max r 0)"
    by (simp add: js_sub_def r)
  ultimately show ?thesis using that by blast
qed

lemma sanitized_householdSize_Some:
  assumes "sanitized_householdSize form = Some hs"
  obtains a where "hs = Fin a" and "1 \<le> a"
proof -
  from assms obtain n where n: "parseNum (householdSize form) = Some n"
    and hs: "hs = js_max (Fin 1) (js_floor n)"
    by (auto simp: sanitized_householdSize_def clampInt_def split: option.splits)
  from n obtain x where "n = Fin x" by (rule parseNum_Fin)
  with hs have "hs = Fin (max 1 (of_int \<lfloor>x\<rfloor>))" by simp
  then show ?thesis using that by simp
qed

lemma sanitized_kwhPerPerson_Some:
  assumes "sanitized_kwhPerPerson form = Some kp"
  obtains b where "kp = Fin b" and "500 \<le> b"
proof -
  from assms obtain n where n: "parseNum (kwhPerPerson form) = Some n"
    and kp: "kp = js_max (Fin 500) (js_floor n)"
    by (auto simp: sanitized_kwhPerPerson_def clampInt_def split: option.splits)
  from n obtain x where "n = Fin x" by (rule parseNum_Fin)
  with kp have "kp = Fin (max 500 (of_int \<lfloor>x\<rfloor>))" by simp
  then show ?thesis using that by simp
qed

lemma sanitized_electricityPrice_Some:
  assumes "sanitized_electricityPrice form = Some ep"
  obtains p where "ep = Fin p" and "0 < p"
proof -
  from assms obtain n where n: "parseNum (electricityPrice form) = Some n"
    and ep: "ep = js_max lit_0_1 n"
    by (auto simp: sanitized_electricityPrice_def clampMin_def split: option.splits)
  from n obtain x where "n = Fin x" by (rule parseNum_Fin)
  with ep have "ep = Fin (max (3602879701896397 / 36028797018963968) x)"
    by (simp add: lit_0_1_value)
  moreover have "(0::real) < max (3602879701896397 / 36028797018963968) x"
    by (simp add: less_max_iff_disj)
  ultimately show ?thesis using that by blast
qed

lemma valid_form_parameters:
  assumes "valid_form form"
  obtains s m where "savingsRatio form = Fin s" and "0 \<le> s" and "s \<le> 1"
    and "maintenance form = Fin m" and "0 \<le> m" and "m \<le> max_value"
proof -
  from assms obtain m where m: "maintenance form = Fin m"
    by (cases "maintenance form") (auto simp: valid_form_def)
  with assms have m': "0 \<le> m" "m \<le> max_value"
    by (auto simp: valid_form_def js_ge_def)
  from assms obtain s where s: "savingsRatio form = Fin s"
    by (cases "savingsRatio form") (auto simp: valid_form_def js_ge_def)
  with assms have "0 \<le> s" "s \<le> 1"
    by (auto simp: valid_form_def js_ge_def)
  with s m m' show ?thesis using that by blast
qed

subsection \<open>Inputs of moderate size\<close>

lemma at_most_Fin:
  assumes "at_most B n"
  obtains x where "n = Fin x" and "\<bar>x\<bar> \<le> B"
  using assms by (cases n) auto

lemma clampInt_zero_int:
  obtains i where "or_zero (clampInt (parseNum v) (Fin 0)) = Fin (real_of_int i)" and "0 \<le> i"
proof (cases "parseNum v")
  case None
  then have "or_zero (clampInt (parseNum v) (Fin 0)) = Fin (real_of_int 0)"
    by (simp add: or_zero_def clampInt_def)
  then show ?thesis using that by blast
next
  case (Some n)
  then obtain x where "n = Fin x" by (rule parseNum_Fin)
  with Some have "or_zero (clampInt (parseNum v) (Fin 0)) = Fin (real_of_int (max 0 \<lfloor>x\<rfloor>))"
    by (simp add: or_zero_def clampInt_def max_def)
  then show ?thesis using that by simp
qed

lemma upfront_int:
  assumes "at_most (2 ^ 50) (sanitized_systemCost form)"
    and "at_most (2 ^ 50) (sanitized_grant form)"
  obtains j where "upfront (derived form) = Fin (real_of_int j)" and "0 \<le> j" and "j \<le> 2 ^ 50"
proof -
  obtain i where i: "sanitized_systemCost form = Fin (real_of_int i)" "0 \<le> i"
    unfolding sanitized_systemCost_def by (rule clampInt_zero_int)
  obtain g where g: "sanitized_grant form = Fin (real_of_int g)" "0 \<le> g"
    unfolding sanitized_grant_def by (rule clampInt_zero_int)
  from assms(1) i have "real_of_int i \<le> real_of_int (2 ^ 50)" by simp
  then have i50: "i \<le> 2 ^ 50" by (simp only: of_int_le_iff)
  from assms(2) g have "real_of_int g \<le> real_of_int (2 ^ 50)" by simp
  then have g50: "g \<le> 2 ^ 50" by (simp only: of_int_le_iff)
  have "\<bar>i - g\<bar> < 2 ^ 53" using i(2) g(2) i50 g50 by simp
  then have "fl (real_of_int (i - g)) = Fin (real_of_int (i - g))" by (rule fl_of_int)
  then have "upfront (derived form) = Fin (real_of_int (max (i - g) 0))"
    by (simp add: upfront_derived i(1) g(1) js_sub_def max_def)
  moreover have "max (i - g) 0 \<le> 2 ^ 50" using i50 g(2) by simp
  ultimately show ?thesis using that by simp
qed

lemma cashflow_finite:
  "\<bar>c\<bar> \<le> 2 ^ K \<Longrightarrow> \<bar>n\<bar> \<le> 2 ^ K \<Longrightarrow> K + length ys \<le> 1023 \<Longrightarrow>
     p \<in> set (cashflow (Fin n) (Fin c) ys) \<Longrightarrow> is_finite (val p)"
proof (induction ys arbitrary: c K)
  case Nil
  then show ?case by simp
next
  case (Cons y ys)
  show ?case
  proof (cases "0 < y")
    case True
    have "\<bar>c + n\<bar> \<le> 2 ^ Suc K" using Cons.prems(1,2) by simp
    moreover have "Suc K \<le> 1023" using Cons.prems(3) by simp
    ultimately obtain c' where c': "fl (c + n) = Fin c'" "\<bar>c'\<bar> \<le> 2 ^ Suc K"
      by (rule fl_abs_le_pow)
    from Cons.prems(4) True c'(1)
    have "p = \<lparr>year = y, val = js_round (Fin c')\<rparr> \<or> p \<in> set (cashflow (Fin n) (Fin c') ys)"
      by (simp add: Let_def)
    then show ?thesis
    proof
      assume "p = \<lparr>year = y, val = js_round (Fin c')\<rparr>"
      then show ?thesis by simp
    next
      assume p: "p \<in> set (cashflow (Fin n) (Fin c') ys)"
      have "\<bar>n\<bar> \<le> 2 ^ Suc K" using Cons.prems(2) by simp
      moreover have "Suc K + length ys \<le> 1023" using Cons.prems(3) by simp
      ultimately show ?thesis using c'(2) p Cons.IH [of c' "Suc K"] by blast
    qed
  next
    case False
    with Cons.prems(4)
    have "p = \<lparr>year = y, val = js_round (Fin c)\<rparr> \<or> p \<in> set (cashflow (Fin n) (Fin c) ys)"
      by (simp add: Let_def)
    then show ?thesis
    proof
      assume "p = \<lparr>year = y, val = js_round (Fin c)\<rparr>"
      then show ?thesis by simp
    next
      assume p: "p \<in> set (cashflow (Fin n) (Fin c) ys)"
      have "K + length ys \<le> 1023" using Cons.prems(3) by simp
      with Cons.prems(1,2) p show ?thesis using Cons.IH [of c K] by blast
    qed
  qed
qed

lemma main_moderate:
  assumes a: "\<bar>a\<bar> \<le> 2 ^ 50" and b: "\<bar>b\<bar> \<le> 2 ^ 50" and p: "\<bar>p\<bar> \<le> 2 ^ 50"
    and s: "\<bar>s\<bar> \<le> 1" and m: "\<bar>m\<bar> \<le> 2 ^ 50"
  obtains k c v n where "js_mul (Fin a) (Fin b) = Fin k"
    and "js_mul (Fin k) (Fin p) = Fin c"
    and "js_mul (Fin c) (Fin s) = Fin v"
    and "js_max (js_sub (Fin v) (Fin m)) (Fin 0) = Fin n" and "\<bar>n\<bar> \<le> 2 ^ 151"
proof -
  have "\<bar>a * b\<bar> \<le> 2 ^ 50 * 2 ^ 50"
    unfolding abs_mult using a b by (intro mult_mono) simp_all
  then have "\<bar>a * b\<bar> \<le> 2 ^ 100" by simp
  then obtain k where k: "fl (a * b) = Fin k" "\<bar>k\<bar> \<le> 2 ^ 100"
    by (rule fl_abs_le_pow) simp
  have "\<bar>k * p\<bar> \<le> 2 ^ 100 * 2 ^ 50"
    unfolding abs_mult using k(2) p by (intro mult_mono) simp_all
  then have "\<bar>k * p\<bar> \<le> 2 ^ 150" by simp
  then obtain c where c: "fl (k * p) = Fin c" "\<bar>c\<bar> \<le> 2 ^ 150"
    by (rule fl_abs_le_pow) simp
  have "\<bar>c * s\<bar> \<le> 2 ^ 150 * 1"
    unfolding abs_mult using c(2) s by (intro mult_mono) simp_all
  then have "\<bar>c * s\<bar> \<le> 2 ^ 150" by simp
  then obtain v where v: "fl (c * s) = Fin v" "\<bar>v\<bar> \<le> 2 ^ 150"
    by (rule fl_abs_le_pow) simp
  have "\<bar>v - m\<bar> \<le> 2 ^ 151" using v(2) m by simp
  then obtain r where r: "fl (v - m) = Fin r" "\<bar>r\<bar> \<le> 2 ^ 151"
    by (rule fl_abs_le_pow) simp
  have "js_mul (Fin a) (Fin b) = Fin k" by (simp add: k)
  moreover have "js_mul (Fin k) (Fin p) = Fin c" by (simp add: c)
  moreover have "js_mul (Fin c) (Fin s) = Fin v" by (simp add: v)
  moreover have "js_max (js_sub (Fin v) (Fin m)) (Fin 0) = Fin (max r 0)"
    by (simp add: js_sub_def r)
  moreover have "\<bar>max r 0\<bar> \<le> 2 ^ 151" using r(2) by simp
  ultimately show ?thesis using that by blast
qed

lemma roi_moderate:
  assumes n: "\<bar>n\<bar> \<le> 2 ^ 151" and j: "0 < j" "j \<le> 2 ^ 50"
  shows "is_finite (js_div (js_sub (js_mul (Fin n) (Fin 10)) (Fin (real_of_int j)))
           (Fin (real_of_int j)))"
proof -
  define u where "u = real_of_int j"
  have "real_of_int 1 \<le> real_of_int j" "real_of_int j \<le> real_of_int (2 ^ 50)"
    using j by (simp_all only: of_int_le_iff)
  then have u: "1 \<le> u" "u \<le> 2 ^ 50" by (simp_all add: u_def)
  have "\<bar>n * 10\<bar> \<le> 2 ^ 155" using n by simp
  then obtain t where t: "fl (n * 10) = Fin t" "\<bar>t\<bar> \<le> 2 ^ 155"
    by (rule fl_abs_le_pow) simp
  have "\<bar>t - u\<bar> \<le> 2 ^ 156" using t(2) u by simp
  then obtain g where g: "fl (t - u) = Fin g" "\<bar>g\<bar> \<le> 2 ^ 156"
    by (rule fl_abs_le_pow) simp
  have "\<bar>g / u\<bar> \<le> \<bar>g\<bar>"
    using u(1) by (simp add: abs_divide divide_le_eq mult_le_cancel_left1)
  with g(2) have "\<bar>g / u\<bar> \<le> 2 ^ 156" by linarith
  then obtain w where w: "fl (g / u) = Fin w"
    by (rule fl_abs_le_pow [where k = 156]) simp_all
  then show ?thesis
    using u(1) by (simp add: js_sub_def t(1) g(1) u_def [symmetric])
qed

subsection \<open>The three cases of finiteness\<close>

lemma guard_finite:
  assumes "\<not> complete form"
  shows "is_finite (annualHotWaterKwh (derived form)) \<and>
        is_finite (annualHotWaterCost (derived form)) \<and>
        is_finite (annualSavings (derived form)) \<and>
        is_finite (netAnnualSavings (derived form)) \<and>
        is_finite (tenYearRoi (derived form)) \<and>
        (\<forall>p \<in> set (data (derived form)). is_finite (val p))"
  using derived_incomplete [OF assms] by (auto simp: derived_guard_def Let_def)

lemma main_not_NaN:
  assumes v: "valid_form form" and c: "complete form"
    and fin: "is_finite (annualHotWaterCost (derived form))"
  shows "is_finite (annualHotWaterKwh (derived form)) \<and>
        is_finite (annualSavings (derived form)) \<and>
        is_finite (netAnnualSavings (derived form)) \<and>
        tenYearRoi (derived form) \<noteq> NaN \<and>
        (\<forall>p \<in> set (data (derived form)). val p \<noteq> NaN)"
proof -
  from c obtain hs ep kp where hs: "sanitized_householdSize form = Some hs"
    and ep: "sanitized_electricityPrice form = Some ep"
    and kp: "sanitized_kwhPerPerson form = Some kp"
    and d: "derived form = derived_main form hs ep kp"
    by (rule derived_complete)
  from hs obtain a where a: "hs = Fin a" "1 \<le> a" by (rule sanitized_householdSize_Some)
  from kp obtain b where b: "kp = Fin b" "500 \<le> b" by (rule sanitized_kwhPerPerson_Some)
  from ep obtain p where p: "ep = Fin p" "0 < p" by (rule sanitized_electricityPrice_Some)
  from v obtain s m where s: "savingsRatio form = Fin s" "0 \<le> s" "s \<le> 1"
    and m: "maintenance form = Fin m" "0 \<le> m" "m \<le> max_value"
    by (rule valid_form_parameters)
  from v have up: "is_finite (upfront (derived form))"
    by (intro upfront_finite) (simp_all add: valid_form_def)
  from fin have "is_finite (js_mul (js_mul (Fin a) (Fin b)) (Fin p))"
    by (simp add: d derived_main_def Let_def a(1) b(1) p(1))
  with a(2) b(2) p(2) s(2,3) m(2,3)
  obtain k c v n where k: "js_mul (Fin a) (Fin b) = Fin k"
    and c: "js_mul (Fin k) (Fin p) = Fin c"
    and v: "js_mul (Fin c) (Fin s) = Fin v"
    and n: "js_max (js_sub (Fin v) (Fin m)) (Fin 0) = Fin n"
    by (rule main_finite)
  from up obtain u where u: "upfront (derived form) = Fin u"
    by (cases "upfront (derived form)") auto
  then have u': "js_max (js_sub (sanitized_systemCost form) (sanitized_grant form)) (Fin 0) = Fin u"
    by (simp add: upfront_derived)
  have kwh: "annualHotWaterKwh (derived form) = Fin k"
    and sav: "annualSavings (derived form) = Fin v"
    and nas: "netAnnualSavings (derived form) = Fin n"
    and roi: "tenYearRoi (derived form) =
      (if 0 < u then js_div (js_sub (js_mul (Fin n) (Fin 10)) (Fin u)) (Fin u) else Fin 0)"
    and dat: "data (derived form) =
      cashflow (Fin n) (Fin (- u)) (years_upto (horizonYears form + 1))"
    by (simp_all add: d derived_main_def Let_def a(1) b(1) p(1) s(1) m(1) k c v n u'
          del: js_mul.simps js_div.simps)
  have "tenYearRoi (derived form) \<noteq> NaN"
  proof (cases "0 < u")
    case True
    have "js_sub (js_mul (Fin n) (Fin 10)) (Fin u) \<noteq> NaN"
      unfolding js_sub_def by (simp add: js_add_Fin_not_NaN)
    then have "js_div (js_sub (js_mul (Fin n) (Fin 10)) (Fin u)) (Fin u) \<noteq> NaN"
      using True by (intro js_div_Fin_not_NaN) simp_all
    moreover from True have "tenYearRoi (derived form) =
        js_div (js_sub (js_mul (Fin n) (Fin 10)) (Fin u)) (Fin u)"
      by (simp only: roi if_True)
    ultimately show ?thesis by simp
  next
    case False
    then show ?thesis by (simp add: roi)
  qed
  moreover have "\<forall>p \<in> set (data (derived form)). val p \<noteq> NaN"
    unfolding dat using cashflow_not_NaN [of "Fin (- u)"] by blast
  ultimately show ?thesis
    by (simp add: kwh sav nas)
qed

lemma moderate_finite:
  assumes v: "valid_form form" and md: "moderate_form form"
  shows "is_finite (annualHotWaterKwh (derived form)) \<and>
        is_finite (annualHotWaterCost (derived form)) \<and>
        is_finite (annualSavings (derived form)) \<and>
        is_finite (netAnnualSavings (derived form)) \<and>
        is_finite (tenYearRoi (derived form)) \<and>
        (\<forall>p \<in> set (data (derived form)). is_finite (val p))"
proof (cases "complete form")
  case False
  then show ?thesis by (rule guard_finite)
next
  case True
  then obtain hs ep kp where hs: "sanitized_householdSize form = Some hs"
    and ep: "sanitized_electricityPrice form = Some ep"
    and kp: "sanitized_kwhPerPerson form = Some kp"
    and d: "derived form = derived_main form hs ep kp"
    by (rule derived_complete)
  from md hs obtain a where a: "hs = Fin a" "\<bar>a\<bar> \<le> 2 ^ 50"
    by (auto simp: moderate_form_def elim: at_most_Fin)
  from md kp obtain b where b: "kp = Fin b" "\<bar>b\<bar> \<le> 2 ^ 50"
    by (auto simp: moderate_form_def elim: at_most_Fin)
  from md ep obtain p where p: "ep = Fin p" "\<bar>p\<bar> \<le> 2 ^ 50"
    by (auto simp: moderate_form_def elim: at_most_Fin)
  from md obtain m where m: "maintenance form = Fin m" "\<bar>m\<bar> \<le> 2 ^ 50"
    by (auto simp: moderate_form_def elim: at_most_Fin)
  from v obtain s where s: "savingsRatio form = Fin s" "0 \<le> s" "s \<le> 1"
    by (rule valid_form_parameters)
  then have s1: "\<bar>s\<bar> \<le> 1" by simp
  from a(2) b(2) p(2) s1 m(2)
  obtain k c w n where k: "js_mul (Fin a) (Fin b) = Fin k"
    and c: "js_mul (Fin k) (Fin p) = Fin c"
    and w: "js_mul (Fin c) (Fin s) = Fin w"
    and n: "js_max (js_sub (Fin w) (Fin m)) (Fin 0) = Fin n" "\<bar>n\<bar> \<le> 2 ^ 151"
    by (rule main_moderate)
  from md have "at_most (2 ^ 50) (sanitized_systemCost form)"
    and "at_most (2 ^ 50) (sanitized_grant form)"
    by (simp_all add: moderate_form_def)
  then obtain j where j: "upfront (derived form) = Fin (real_of_int j)" "0 \<le> j" "j \<le> 2 ^ 50"
    by (rule upfront_int)
  then have u': "js_max (js_sub (sanitized_systemCost form) (sanitized_grant form)) (Fin 0) =
      Fin (real_of_int j)"
    by (simp add: upfront_derived)
  have kwh: "annualHotWaterKwh (derived form) = Fin k"
    and cost: "annualHotWaterCost (derived form) = Fin c"
    and sav: "annualSavings (derived form) = Fin w"
    and nas: "netAnnualSavings (derived form) = Fin n"
    and roi: "tenYearRoi (derived form) =
      (if 0 < j then js_div (js_sub (js_mul (Fin n) (Fin 10)) (Fin (real_of_int j)))
         (Fin (real_of_int j)) else Fin 0)"
    and dat: "data (derived form) =
      cashflow (Fin n) (Fin (- real_of_int j)) (years_upto (horizonYears form + 1))"
    by (simp_all add: d derived_main_def Let_def a(1) b(1) p(1) s(1) m(1) k c w n(1) u'
          del: js_mul.simps js_div.simps)
  have "is_finite (tenYearRoi (derived form))"
  proof (cases "0 < j")
    case True
    with n(2) j(3) show ?thesis by (simp only: roi if_True roi_moderate)
  next
    case False
    then show ?thesis by (simp add: roi)
  qed
  moreover have "\<forall>q \<in> set (data (derived form)). is_finite (val q)"
  proof
    fix q
    assume q: "q \<in> set (data (derived form))"
    have "real_of_int j \<le> real_of_int (2 ^ 50)"
      using j(3) by (simp only: of_int_le_iff)
    then have "\<bar>- real_of_int j\<bar> \<le> 2 ^ 151"
      using j(2) by simp
    moreover note n(2)
    moreover from md have "151 + length (years_upto (horizonYears form + 1)) \<le> 1023"
      by (simp add: moderate_form_def years_upto_def)
    ultimately show "is_finite (val q)"
      using q unfolding dat by (rule cashflow_finite)
  qed
  ultimately show ?thesis
    by (simp add: kwh cost sav nas)
qed

lemma valid_defaultInputs: "valid_form defaultInputs"
  by (simp add: valid_form_def defaultInputs_def fl_1_95 fl_0_66 js_ge_def max_value_def)

lemma valid_household_text: "valid_form household_text"
  by (simp add: valid_form_def household_text_def defaultInputs_def fl_1_95 fl_0_66 js_ge_def
        max_value_def)

lemma valid_price_1_96: "valid_form price_1_96"
  by (simp add: valid_form_def price_1_96_def defaultInputs_def fl_0_66 js_ge_def max_value_def)

lemma valid_cost_1e308: "valid_form cost_1e308"
  by (simp add: valid_form_def cost_1e308_def defaultInputs_def fl_1_95 fl_0_66 js_ge_def
        max_value_def)

lemma valid_household_1e306: "valid_form household_1e306"
  by (simp add: valid_form_def household_1e306_def defaultInputs_def fl_1_95 fl_0_66 js_ge_def
        max_value_def)

lemma incomplete_household_text: "\<not> complete household_text"
  by (simp add: complete_def household_text_def defaultInputs_def sanitize_defs parseNum_abc)

lemma moderate_defaultInputs: "moderate_form defaultInputs"
  by (simp add: moderate_form_def defaultInputs_def sanitize_defs parseNum_def fl_1_95 fl_0_1)

section \<open>The claims\<close>

subsection \<open>C1: the cash-flow series\<close>

text \<open>
  C1, as stated: \<open>data\<close> has \<open>horizonYears + 1\<close> entries for the years
  \<open>0..horizonYears\<close>, the first value is \<open>-upfront\<close> rounded, and every later value is
  the previous value of \<open>data\<close> plus \<open>netAnnualSavings\<close>, rounded. The recurrence on the
  values of \<open>data\<close> fails: with the defaults and the price \<^verbatim>\<open>1,96\<close> the yearly saving is
  about \<open>3880.8\<close>, year 2 holds \<open>-21238\<close> and year 3 holds \<open>-17358\<close>, while
  \<open>-21238 + 3880.8\<close> is about \<open>-17357.2\<close> and rounds to \<open>-17357\<close>.
\<close>

theorem C1_recurrence_counterexample:
  "valid_form price_1_96 \<and> complete price_1_96 \<and>
   val (data (derived price_1_96) ! 3) \<noteq>
     js_round (js_add (val (data (derived price_1_96) ! 2))
                 (netAnnualSavings (derived price_1_96))) \<and>
   val (data (derived price_1_96) ! 3) \<noteq>
     js_add (val (data (derived price_1_96) ! 2)) (netAnnualSavings (derived price_1_96))"
  by (simp add: valid_price_1_96 derived_price_1_96 price_1_96_recurrence del: js_add.simps)

text \<open>
  C1, amended: for every complete input, \<open>data\<close> has \<open>horizonYears + 1\<close> entries for
  the years \<open>0..horizonYears\<close> in increasing order, and the value of year \<open>i\<close> is the
  rounding of the running total after \<open>i\<close> additions of \<open>netAnnualSavings\<close> to
  \<open>-upfront\<close>; the running total itself is never rounded to an integer. In particular the
  value of year 0 is \<open>-upfront\<close> rounded.
\<close>

theorem C1_cashflow_series:
  assumes "complete form"
  shows "length (data (derived form)) = horizonYears form + 1 \<and>
         map year (data (derived form)) = [0..<horizonYears form + 1] \<and>
         val (data (derived form) ! 0) = js_round (js_neg (upfront (derived form))) \<and>
         (\<forall>i \<le> horizonYears form.
            val (data (derived form) ! i) =
              js_round (running_total (netAnnualSavings (derived form))
                          (js_neg (upfront (derived form))) i))"
proof -
  from assms obtain hs ep kp where d: "derived form = derived_main form hs ep kp"
    by (rule derived_complete)
  define nas where "nas = netAnnualSavings (derived form)"
  define up where "up = upfront (derived form)"
  have dat: "data (derived form) = cashflow nas (js_neg up) (years_upto (Suc (horizonYears form)))"
    by (simp add: d nas_def up_def derived_main_def Let_def)
  have "length (data (derived form)) = horizonYears form + 1"
    by (simp add: dat years_upto_def)
  moreover have "map year (data (derived form)) = [0..<horizonYears form + 1]"
    by (simp add: dat years_upto_def)
  moreover have "\<forall>i \<le> horizonYears form.
      val (data (derived form) ! i) = js_round (running_total nas (js_neg up) i)"
    by (simp add: dat val_cashflow_years)
  moreover from this have "val (data (derived form) ! 0) = js_round (js_neg up)"
    by fastforce
  ultimately show ?thesis
    unfolding nas_def up_def by blast
qed

theorem C1_cashflow_series_witness:
  "complete defaultInputs \<and>
   length (data (derived defaultInputs)) = 16 \<and>
   map year (data (derived defaultInputs)) = [0..<16] \<and>
   val (data (derived defaultInputs) ! 0) = Fin (- 29000) \<and>
   val (data (derived defaultInputs) ! 2) = js_round (js_add (js_add (Fin (- 29000)) (Fin 3861)) (Fin 3861))"
proof -
  have "horizonYears defaultInputs = 15"
    by (simp add: defaultInputs_def)
  with C1_cashflow_series [OF complete_defaultInputs]
  have "length (data (derived defaultInputs)) = 16"
    and "map year (data (derived defaultInputs)) = [0..<16]"
    and "val (data (derived defaultInputs) ! 0) = js_round (js_neg (upfront (derived defaultInputs)))"
    and "val (data (derived defaultInputs) ! 2) =
          js_round (running_total (netAnnualSavings (derived defaultInputs))
                      (js_neg (upfront (derived defaultInputs))) 2)"
    by simp_all
  then show ?thesis
    using complete_defaultInputs
    by (simp add: derived_defaultInputs eval_nat_numeral del: js_add.simps)
qed

subsection \<open>C2: committing a field on blur\<close>

text \<open>
  C2, as stated: on blur, a required field whose raw value parses to "no value" is set to
  the minimum of the field. It is not: the handler writes the empty string back, and the
  field still parses to "no value". With the hot-water field cleared, the blur leaves
  \<^verbatim>\<open>""\<close>, not \<open>500\<close>.
\<close>

theorem C2_blur_counterexample:
  "parseNum (kwhPerPerson kwh_empty) = None \<and>
   kwhPerPerson (onBlur_kwhPerPerson kwh_empty) \<noteq> RNum (Fin 500) \<and>
   kwhPerPerson (onBlur_kwhPerPerson kwh_empty) = RStr '''' \<and>
   parseNum (kwhPerPerson (onBlur_kwhPerPerson kwh_empty)) = None"
  by (simp add: kwh_empty_def defaultInputs_def onBlur_kwhPerPerson_def clampInt_def commit_def)

text \<open>
  C2, amended: for each required field, the blur handler turns a raw value that parses to
  "no value" into the empty string, which again parses to "no value" (no minimum is
  substituted); a raw value that parses to a number \<open>x\<close> is committed as the number
  \<open>max 500 \<lfloor>x\<rfloor>\<close> for \<open>kwhPerPerson\<close>, \<open>max 1 \<lfloor>x\<rfloor>\<close> for \<open>householdSize\<close>, and
  the larger of \<open>x\<close> and the binary64 value of \<open>0.1\<close> for \<open>electricityPrice\<close>.
\<close>

theorem C2_blur_commit:
  "(parseNum (kwhPerPerson f) = None \<longrightarrow>
      kwhPerPerson (onBlur_kwhPerPerson f) = RStr [] \<and>
      parseNum (kwhPerPerson (onBlur_kwhPerPerson f)) = None) \<and>
   (parseNum (kwhPerPerson f) = Some (Fin x) \<longrightarrow>
      kwhPerPerson (onBlur_kwhPerPerson f) = RNum (Fin (max 500 (of_int \<lfloor>x\<rfloor>)))) \<and>
   (parseNum (householdSize f) = None \<longrightarrow>
      householdSize (onBlur_householdSize f) = RStr [] \<and>
      parseNum (householdSize (onBlur_householdSize f)) = None) \<and>
   (parseNum (householdSize f) = Some (Fin y) \<longrightarrow>
      householdSize (onBlur_householdSize f) = RNum (Fin (max 1 (of_int \<lfloor>y\<rfloor>)))) \<and>
   (parseNum (electricityPrice f) = None \<longrightarrow>
      electricityPrice (onBlur_electricityPrice f) = RStr [] \<and>
      parseNum (electricityPrice (onBlur_electricityPrice f)) = None) \<and>
   (parseNum (electricityPrice f) = Some (Fin z) \<longrightarrow>
      electricityPrice (onBlur_electricityPrice f) =
        RNum (Fin (max (3602879701896397 / 36028797018963968) z)))"
  by (simp add: onBlur_kwhPerPerson_def onBlur_householdSize_def onBlur_electricityPrice_def
        clampInt_def clampMin_def commit_def lit_0_1_value)

theorem C2_blur_commit_witness:
  "parseNum (kwhPerPerson household_2_7) = None \<and>
   kwhPerPerson (onBlur_kwhPerPerson household_2_7) = RStr [] \<and>
   parseNum (householdSize household_2_7) = Some (Fin (3039929748475085 / 1125899906842624)) \<and>
   householdSize (onBlur_householdSize household_2_7) = RNum (Fin 2) \<and>
   parseNum (electricityPrice household_2_7) = Some (Fin (8782019273372467 / 4503599627370496)) \<and>
   electricityPrice (onBlur_electricityPrice household_2_7) =
     RNum (Fin (8782019273372467 / 4503599627370496))"
proof -
  have k: "parseNum (kwhPerPerson household_2_7) = None"
    by (simp add: household_2_7_def defaultInputs_def)
  have h: "parseNum (householdSize household_2_7) = Some (Fin (3039929748475085 / 1125899906842624))"
    by (simp add: household_2_7_def defaultInputs_def parseNum_2_7)
  have e: "parseNum (electricityPrice household_2_7) = Some (Fin (8782019273372467 / 4503599627370496))"
    by (simp add: household_2_7_def defaultInputs_def parseNum_def fl_1_95)
  from C2_blur_commit [of household_2_7 0 "3039929748475085 / 1125899906842624"
      "8782019273372467 / 4503599627370496"] k h e
  show ?thesis
    by simp
qed

subsection \<open>C3: the degenerate result\<close>

text \<open>
  C3: when one of \<open>householdSize\<close>, \<open>electricityPrice\<close>, \<open>kwhPerPerson\<close> sanitizes to
  "no value", the result has \<open>annualHotWaterKwh\<close>, \<open>annualHotWaterCost\<close>, \<open>annualSavings\<close>,
  \<open>netAnnualSavings\<close> and \<open>tenYearRoi\<close> all \<open>0\<close>, \<open>upfront = max(systemCost - grant, 0)\<close> on
  the sanitized cost and grant, \<open>paybackYears\<close> the sentinel \<^verbatim>\<open>Infinity\<close>, and \<open>data\<close> the
  \<open>horizonYears + 1\<close> points of the years \<open>0..horizonYears\<close>, all with value \<open>0\<close>.
\<close>

theorem C3_degenerate_result:
  assumes "sanitized_householdSize form = None \<or> sanitized_electricityPrice form = None \<or>
           sanitized_kwhPerPerson form = None"
  shows "derived form =
     \<lparr>annualHotWaterKwh = Fin 0,
      annualHotWaterCost = Fin 0,
      annualSavings = Fin 0,
      netAnnualSavings = Fin 0,
      upfront = js_max (js_sub (sanitized_systemCost form) (sanitized_grant form)) (Fin 0),
      paybackYears = PInf,
      data = map (\<lambda>i. \<lparr>year = i, val = Fin 0\<rparr>) [0..<horizonYears form + 1],
      tenYearRoi = Fin 0\<rparr>"
proof -
  from assms have "\<not> complete form"
    by (auto simp: complete_def)
  then have "derived form = derived_guard form"
    by (rule derived_incomplete)
  then show ?thesis
    by (simp add: derived_guard_def years_upto_def Let_def)
qed

theorem C3_degenerate_result_witness:
  "sanitized_householdSize household_text = None \<and>
   derived household_text =
     \<lparr>annualHotWaterKwh = Fin 0,
      annualHotWaterCost = Fin 0,
      annualSavings = Fin 0,
      netAnnualSavings = Fin 0,
      upfront = Fin 29000,
      paybackYears = PInf,
      data = map (\<lambda>i. \<lparr>year = i, val = Fin 0\<rparr>) [0..<16],
      tenYearRoi = Fin 0\<rparr>"
proof -
  have n: "sanitized_householdSize household_text = None"
    by (simp add: household_text_def defaultInputs_def sanitize_defs parseNum_abc)
  then have "sanitized_householdSize household_text = None \<or>
      sanitized_electricityPrice household_text = None \<or>
      sanitized_kwhPerPerson household_text = None"
    by simp
  from C3_degenerate_result [OF this] n show ?thesis
    by (simp add: household_text_def defaultInputs_def sanitize_defs parseNum_def
          js_sub_def fl_numeral)
qed

subsection \<open>C4: the payback period\<close>

text \<open>
  C4, as stated: \<open>paybackYears\<close> is \<open>upfront / netAnnualSavings\<close> when
  \<open>netAnnualSavings > 0\<close>, and it is the sentinel, which no numeric value equals, exactly
  when \<open>netAnnualSavings \<le> 0\<close>. The sentinel is the number \<^verbatim>\<open>Infinity\<close>, and the
  division yields it too when the quotient overflows: with the system cost \<^verbatim>\<open>1e308\<close> and
  a yearly saving of \<open>0.5\<close> (the default saving \<open>3861\<close> less a maintenance of
  \<open>3860.5\<close>) the quotient \<open>2e308\<close> is \<^verbatim>\<open>Infinity\<close> although \<open>netAnnualSavings > 0\<close>.
\<close>

theorem C4_payback_counterexample:
  "valid_form cost_1e308 \<and> complete cost_1e308 \<and>
   js_gt (netAnnualSavings (derived cost_1e308)) (Fin 0) \<and>
   \<not> js_ge (Fin 0) (netAnnualSavings (derived cost_1e308)) \<and>
   paybackYears (derived cost_1e308) = PInf"
  by (simp add: valid_cost_1e308 derived_cost_1e308 js_ge_def)

text \<open>
  C4, amended: for every complete input, \<open>paybackYears\<close> is the binary64 quotient
  \<open>upfront / netAnnualSavings\<close> when \<open>netAnnualSavings > 0\<close>, and the sentinel
  \<^verbatim>\<open>Infinity\<close> otherwise, in particular whenever \<open>netAnnualSavings \<le> 0\<close>. With
  \<open>netAnnualSavings > 0\<close> it is finite, hence not the sentinel, as long as the exact
  quotient stays below the overflow threshold \<open>2^1024 - 2^970\<close>.
\<close>

theorem C4_payback_years:
  assumes "complete form"
  shows "(js_gt (netAnnualSavings (derived form)) (Fin 0) \<longrightarrow>
            paybackYears (derived form) =
              js_div (upfront (derived form)) (netAnnualSavings (derived form))) \<and>
         (\<not> js_gt (netAnnualSavings (derived form)) (Fin 0) \<longrightarrow>
            paybackYears (derived form) = PInf) \<and>
         (js_ge (Fin 0) (netAnnualSavings (derived form)) \<longrightarrow>
            paybackYears (derived form) = PInf) \<and>
         (netAnnualSavings (derived form) = Fin n \<and> 0 < n \<and>
          upfront (derived form) = Fin u \<and> u / n < overflow_threshold \<longrightarrow>
            is_finite (paybackYears (derived form)) \<and> paybackYears (derived form) \<noteq> PInf)"
proof -
  from assms obtain hs ep kp where d: "derived form = derived_main form hs ep kp"
    by (rule derived_complete)
  have p: "paybackYears (derived form) =
      (if js_gt (netAnnualSavings (derived form)) (Fin 0)
       then js_div (upfront (derived form)) (netAnnualSavings (derived form)) else PInf)"
    by (simp add: d derived_main_def Let_def)
  have fin: "is_finite (paybackYears (derived form)) \<and> paybackYears (derived form) \<noteq> PInf"
    if n: "netAnnualSavings (derived form) = Fin n" "0 < n"
      and u: "upfront (derived form) = Fin u" "u / n < overflow_threshold"
  proof -
    from u(1) have "0 \<le> u" by (rule upfront_nonneg)
    with n(2) have "0 \<le> u / n" by simp
    with u(2) have "\<bar>u / n\<bar> < overflow_threshold" by simp
    then have "is_finite (fl (u / n))" by (simp add: fl_finite_iff)
    moreover have "paybackYears (derived form) = fl (u / n)"
      using n u(1) by (simp add: p)
    ultimately show ?thesis by auto
  qed
  show ?thesis
    using p fin by (auto simp: js_ge_def)
qed

theorem C4_payback_years_witness:
  "complete defaultInputs \<and>
   js_gt (netAnnualSavings (derived defaultInputs)) (Fin 0) \<and>
   paybackYears (derived defaultInputs) = js_div (Fin 29000) (Fin 3861) \<and>
   is_finite (paybackYears (derived defaultInputs)) \<and>
   complete maintenance_5000 \<and>
   js_ge (Fin 0) (netAnnualSavings (derived maintenance_5000)) \<and>
   paybackYears (derived maintenance_5000) = PInf"
proof -
  have a: "netAnnualSavings (derived defaultInputs) = Fin 3861"
    and b: "upfront (derived defaultInputs) = Fin 29000"
    by (simp_all add: derived_defaultInputs)
  have c: "(29000::real) / 3861 < overflow_threshold"
    by (simp add: overflow_threshold_def)
  have g: "js_gt (netAnnualSavings (derived defaultInputs)) (Fin 0)"
    by (simp add: a)
  note t = C4_payback_years [OF complete_defaultInputs, of 3861 29000]
  from t g have "paybackYears (derived defaultInputs) =
      js_div (upfront (derived defaultInputs)) (netAnnualSavings (derived defaultInputs))"
    by blast
  then have p: "paybackYears (derived defaultInputs) = js_div (Fin 29000) (Fin 3861)"
    by (simp only: a b)
  have "(0::real) < 3861"
    by simp
  with t a b c have f: "is_finite (paybackYears (derived defaultInputs))"
    by blast
  have m: "complete maintenance_5000" "netAnnualSavings (derived maintenance_5000) = Fin 0"
    using derived_maintenance_5000 by simp_all
  then have z: "js_ge (Fin 0) (netAnnualSavings (derived maintenance_5000))"
    by (simp add: js_ge_def)
  with C4_payback_years [OF m(1), of 1 0]
  have "paybackYears (derived maintenance_5000) = PInf"
    by blast
  with complete_defaultInputs g p f m(1) z show ?thesis
    by blast
qed

subsection \<open>C5: scenario A\<close>

text \<open>
  C5: the defaults are the input of scenario A (3 persons, price \<open>1.95\<close>, system cost
  \<open>29000\<close>, no grant, \<open>1000\<close> kWh per person, no maintenance, savings ratio \<open>0.66\<close>,
  15 years). The result has \<open>annualHotWaterKwh = 3000\<close>, \<open>annualHotWaterCost = 5850\<close>,
  \<open>annualSavings = 3861\<close>, \<open>netAnnualSavings = 3861\<close>, \<open>upfront = 29000\<close>,
  \<open>paybackYears\<close> about \<open>7.51\<close>, \<open>data[0].value = -29000\<close>, \<open>data[1].value = -25139\<close>
  and \<open>tenYearRoi\<close> about \<open>0.331\<close>. The two quotients are given as the binary64 values
  the divisions return.
\<close>

theorem C5_scenario_A:
  "annualHotWaterKwh (derived defaultInputs) = Fin 3000 \<and>
   annualHotWaterCost (derived defaultInputs) = Fin 5850 \<and>
   annualSavings (derived defaultInputs) = Fin 3861 \<and>
   netAnnualSavings (derived defaultInputs) = Fin 3861 \<and>
   upfront (derived defaultInputs) = Fin 29000 \<and>
   paybackYears (derived defaultInputs) = Fin (4228321328468803 / 562949953421312) \<and>
   \<bar>4228321328468803 / 562949953421312 - 751 / 100\<bar> < (5 / 1000 :: real) \<and>
   val (data (derived defaultInputs) ! 0) = Fin (- 29000) \<and>
   val (data (derived defaultInputs) ! 1) = Fin (- 25139) \<and>
   tenYearRoi (derived defaultInputs) = Fin (2984799477174515 / 9007199254740992) \<and>
   \<bar>2984799477174515 / 9007199254740992 - 331 / 1000\<bar> < (5 / 10000 :: real)"
  by (simp add: derived_defaultInputs)

subsection \<open>C6: the ten-year return\<close>

text \<open>
  C6: for every complete input, \<open>tenYearRoi\<close> is
  \<open>(netAnnualSavings * 10 - upfront) / upfront\<close> when \<open>upfront > 0\<close> and \<open>0\<close> when
  \<open>upfront = 0\<close>; it does not depend on \<open>horizonYears\<close>: two inputs that differ in
  \<open>horizonYears\<close> only have the same \<open>tenYearRoi\<close>.
\<close>

theorem C6_ten_year_roi:
  assumes "complete form"
  shows "(js_gt (upfront (derived form)) (Fin 0) \<longrightarrow>
            tenYearRoi (derived form) =
              js_div (js_sub (js_mul (netAnnualSavings (derived form)) (Fin 10))
                        (upfront (derived form)))
                (upfront (derived form))) \<and>
         (upfront (derived form) = Fin 0 \<longrightarrow> tenYearRoi (derived form) = Fin 0) \<and>
         tenYearRoi (derived (form\<lparr>horizonYears := h\<rparr>)) =
           tenYearRoi (derived (form\<lparr>horizonYears := h'\<rparr>))"
proof -
  from assms obtain hs ep kp where d: "derived form = derived_main form hs ep kp"
    by (rule derived_complete)
  have "js_gt (upfront (derived form)) (Fin 0) \<longrightarrow>
            tenYearRoi (derived form) =
              js_div (js_sub (js_mul (netAnnualSavings (derived form)) (Fin 10))
                        (upfront (derived form)))
                (upfront (derived form))"
    by (simp add: d derived_main_def Let_def)
  moreover have "upfront (derived form) = Fin 0 \<longrightarrow> tenYearRoi (derived form) = Fin 0"
    by (simp add: d derived_main_def Let_def)
  moreover have "tenYearRoi (derived (form\<lparr>horizonYears := h\<rparr>)) =
           tenYearRoi (derived (form\<lparr>horizonYears := h'\<rparr>))"
    by (simp add: derived_def derived_main_def derived_guard_def Let_def sanitize_defs
          split: option.splits)
  ultimately show ?thesis by blast
qed

theorem C6_ten_year_roi_witness:
  "complete defaultInputs \<and>
   js_gt (upfront (derived defaultInputs)) (Fin 0) \<and>
   tenYearRoi (derived defaultInputs) =
     js_div (js_sub (js_mul (Fin 3861) (Fin 10)) (Fin 29000)) (Fin 29000) \<and>
   tenYearRoi (derived (defaultInputs\<lparr>horizonYears := 5\<rparr>)) =
     tenYearRoi (derived (defaultInputs\<lparr>horizonYears := 30\<rparr>)) \<and>
   complete grant_30000 \<and>
   upfront (derived grant_30000) = Fin 0 \<and>
   tenYearRoi (derived grant_30000) = Fin 0"
proof -
  have a: "netAnnualSavings (derived defaultInputs) = Fin 3861"
    and b: "upfront (derived defaultInputs) = Fin 29000"
    by (simp_all add: derived_defaultInputs)
  have g: "js_gt (upfront (derived defaultInputs)) (Fin 0)"
    by (simp add: b)
  note t = C6_ten_year_roi [OF complete_defaultInputs, of 5 30]
  from t g have "tenYearRoi (derived defaultInputs) =
      js_div (js_sub (js_mul (netAnnualSavings (derived defaultInputs)) (Fin 10))
                (upfront (derived defaultInputs)))
        (upfront (derived defaultInputs))"
    by blast
  then have r: "tenYearRoi (derived defaultInputs) =
      js_div (js_sub (js_mul (Fin 3861) (Fin 10)) (Fin 29000)) (Fin 29000)"
    by (simp only: a b)
  from t have h: "tenYearRoi (derived (defaultInputs\<lparr>horizonYears := 5\<rparr>)) =
      tenYearRoi (derived (defaultInputs\<lparr>horizonYears := 30\<rparr>))"
    by blast
  have c: "complete grant_30000"
    by (simp add: complete_def grant_30000_def defaultInputs_def sanitize_defs parseNum_def
          fl_1_95 fl_0_1)
  have u: "upfront (derived grant_30000) = Fin 0"
    by (simp add: upfront_derived grant_30000_def defaultInputs_def sanitize_defs
          parseNum_30000 parseNum_def [of "RNum _"] js_sub_def fl_neg_numeral)
  with C6_ten_year_roi [OF c, of 0 0] have "tenYearRoi (derived grant_30000) = Fin 0"
    by blast
  with complete_defaultInputs g r h c u show ?thesis
    by blast
qed

subsection \<open>C7: sanitizing a raw field\<close>

text \<open>
  C7: a raw field value yields "no value" when it is empty or undefined, or when the
  text, its first comma replaced by a point, does not parse to a finite number; the raw
  text \<^verbatim>\<open>1,95\<close> yields \<open>1.95\<close>. Otherwise the integer fields \<open>householdSize\<close>,
  \<open>systemCost\<close>, \<open>grant\<close> and \<open>kwhPerPerson\<close> are floored and then raised to their
  minimums \<open>1\<close>, \<open>0\<close>, \<open>0\<close> and \<open>500\<close>, and \<open>electricityPrice\<close> is raised to \<open>0.1\<close>
  without flooring. (\<^verbatim>\<open>null\<close>, outside the type of a field, is "no value" as well; for
  \<open>systemCost\<close> and \<open>grant\<close> the calculator then reads "no value" as \<open>0\<close>.)
\<close>

theorem C7_sanitization:
  "(parseNum (RStr s) = None \<longleftrightarrow> s = [] \<or> \<not> is_finite (js_Number (replace_comma s))) \<and>
   (parseNum (RStr s) = Some n \<longrightarrow> n = js_Number (replace_comma s)) \<and>
   parseNum RUndefined = None \<and>
   parseNum RNull = None \<and>
   (parseNum (RNum m) = None \<longleftrightarrow> \<not> is_finite m) \<and>
   (parseNum (RNum m) = Some n \<longrightarrow> n = m) \<and>
   parseNum (RStr ''1,95'') = Some (fl (195 / 100)) \<and>
   (parseNum (householdSize form) = None \<longrightarrow> sanitized_householdSize form = None) \<and>
   (parseNum (householdSize form) = Some (Fin x1) \<longrightarrow>
      sanitized_householdSize form = Some (Fin (max 1 (of_int \<lfloor>x1\<rfloor>)))) \<and>
   (parseNum (systemCost form) = None \<longrightarrow>
      clampInt (parseNum (systemCost form)) (Fin 0) = None \<and> sanitized_systemCost form = Fin 0) \<and>
   (parseNum (systemCost form) = Some (Fin x2) \<longrightarrow>
      sanitized_systemCost form = Fin (max 0 (of_int \<lfloor>x2\<rfloor>))) \<and>
   (parseNum (grant form) = None \<longrightarrow>
      clampInt (parseNum (grant form)) (Fin 0) = None \<and> sanitized_grant form = Fin 0) \<and>
   (parseNum (grant form) = Some (Fin x3) \<longrightarrow>
      sanitized_grant form = Fin (max 0 (of_int \<lfloor>x3\<rfloor>))) \<and>
   (parseNum (kwhPerPerson form) = None \<longrightarrow> sanitized_kwhPerPerson form = None) \<and>
   (parseNum (kwhPerPerson form) = Some (Fin x4) \<longrightarrow>
      sanitized_kwhPerPerson form = Some (Fin (max 500 (of_int \<lfloor>x4\<rfloor>)))) \<and>
   (parseNum (electricityPrice form) = None \<longrightarrow> sanitized_electricityPrice form = None) \<and>
   (parseNum (electricityPrice form) = Some (Fin x5) \<longrightarrow>
      sanitized_electricityPrice form =
        Some (Fin (max (3602879701896397 / 36028797018963968) x5)))"
proof -
  have "parseNum (RStr s) = None \<longleftrightarrow> s = [] \<or> \<not> is_finite (js_Number (replace_comma s))"
    by (simp add: parseNum_def Let_def)
  moreover have "parseNum (RStr s) = Some n \<longrightarrow> n = js_Number (replace_comma s)"
    by (auto simp: parseNum_def Let_def split: if_splits)
  moreover have "parseNum RUndefined = None" "parseNum RNull = None"
    by (simp_all add: parseNum_def)
  moreover have "parseNum (RNum m) = None \<longleftrightarrow> \<not> is_finite m"
    by (simp add: parseNum_def)
  moreover have "parseNum (RNum m) = Some n \<longrightarrow> n = m"
    by (auto simp: parseNum_def split: if_splits)
  moreover have "parseNum (RStr ''1,95'') = Some (fl (195 / 100))"
    by (simp add: parseNum_1_95 fl_1_95)
  ultimately show ?thesis
    by (simp add: sanitize_defs lit_0_1_value [unfolded lit_0_1_def])
qed

theorem C7_sanitization_witness:
  "parseNum (RStr ''1,95'') = Some (Fin (8782019273372467 / 4503599627370496)) \<and>
   js_Number (replace_comma ''1,95'') = Fin (8782019273372467 / 4503599627370496) \<and>
   parseNum (RNum PInf) = None \<and>
   sanitized_householdSize typed_form = Some (Fin 2) \<and>
   sanitized_systemCost typed_form = Fin 0 \<and>
   parseNum (grant typed_form) = None \<and>
   sanitized_grant typed_form = Fin 0 \<and>
   sanitized_kwhPerPerson typed_form = Some (Fin 500) \<and>
   sanitized_electricityPrice typed_form = Some (Fin (3602879701896397 / 36028797018963968))"
proof -
  note t = C7_sanitization [of "''1,95''" "Fin (8782019273372467 / 4503599627370496)" PInf
      typed_form "3039929748475085 / 1125899906842624" "- 5" 0 250
      "3602879701896397 / 72057594037927936"]
  have p: "parseNum (RStr ''1,95'') = Some (Fin (8782019273372467 / 4503599627370496))"
    by (rule parseNum_1_95)
  with t have n: "Fin (8782019273372467 / 4503599627370496) = js_Number (replace_comma ''1,95'')"
    by blast
  have i: "\<not> is_finite PInf"
    by simp
  with t have m: "parseNum (RNum PInf) = None"
    by blast
  have "parseNum (householdSize typed_form) = Some (Fin (3039929748475085 / 1125899906842624))"
    by (simp add: typed_form_def parseNum_2_7)
  with t have h: "sanitized_householdSize typed_form =
      Some (Fin (max 1 (of_int \<lfloor>3039929748475085 / 1125899906842624 :: real\<rfloor>)))"
    by blast
  have "parseNum (systemCost typed_form) = Some (Fin (- 5))"
    by (simp add: typed_form_def parseNum_minus_5)
  with t have c: "sanitized_systemCost typed_form = Fin (max 0 (of_int \<lfloor>- 5 :: real\<rfloor>))"
    by blast
  have g0: "parseNum (grant typed_form) = None"
    by (simp add: typed_form_def)
  with t have g: "sanitized_grant typed_form = Fin 0"
    by blast
  have "parseNum (kwhPerPerson typed_form) = Some (Fin 250)"
    by (simp add: typed_form_def parseNum_250)
  with t have k: "sanitized_kwhPerPerson typed_form = Some (Fin (max 500 (of_int \<lfloor>250 :: real\<rfloor>)))"
    by blast
  have "parseNum (electricityPrice typed_form) = Some (Fin (3602879701896397 / 72057594037927936))"
    by (simp add: typed_form_def parseNum_0_05)
  with t have e: "sanitized_electricityPrice typed_form =
      Some (Fin (max (3602879701896397 / 36028797018963968) (3602879701896397 / 72057594037927936)))"
    by blast
  from p n m h c g0 g k e show ?thesis
    by simp
qed

subsection \<open>C8: the upfront cost\<close>

text \<open>
  C8: for every input, in the guard branch as in the main branch, \<open>upfront\<close> is
  \<open>max(systemCost - grant, 0)\<close> on the sanitized cost and grant and is never negative
  (nor NaN); a grant that reaches or exceeds the system cost gives \<open>upfront = 0\<close>.
\<close>

theorem C8_upfront_never_negative:
  "upfront (derived form) =
     js_max (js_sub (sanitized_systemCost form) (sanitized_grant form)) (Fin 0) \<and>
   js_ge (upfront (derived form)) (Fin 0) \<and>
   (js_ge (sanitized_grant form) (sanitized_systemCost form) \<longrightarrow>
      upfront (derived form) = Fin 0)"
proof -
  obtain a where a: "sanitized_systemCost form = Fin a" "0 \<le> a"
    by (rule sanitized_systemCost_Fin)
  obtain b where b: "sanitized_grant form = Fin b" "0 \<le> b"
    by (rule sanitized_grant_Fin)
  have u: "upfront (derived form) = js_max (fl (a - b)) (Fin 0)"
    by (simp add: upfront_derived a b js_sub_def)
  have "js_ge (upfront (derived form)) (Fin 0)"
    unfolding u by (rule js_max_fl_zero_ge)
  moreover have "js_ge (sanitized_grant form) (sanitized_systemCost form) \<longrightarrow>
      upfront (derived form) = Fin 0"
    unfolding u by (simp add: a b js_ge_def js_max_fl_zero_nonpos)
  ultimately show ?thesis
    by (simp add: upfront_derived)
qed

theorem C8_upfront_never_negative_witness:
  "sanitized_grant grant_30000 = Fin 30000 \<and>
   sanitized_systemCost grant_30000 = Fin 29000 \<and>
   js_ge (sanitized_grant grant_30000) (sanitized_systemCost grant_30000) \<and>
   upfront (derived grant_30000) = Fin 0"
proof -
  have g: "sanitized_grant grant_30000 = Fin 30000"
    by (simp add: grant_30000_def defaultInputs_def sanitize_defs parseNum_30000)
  have c: "sanitized_systemCost grant_30000 = Fin 29000"
    by (simp add: grant_30000_def defaultInputs_def sanitize_defs parseNum_def)
  have "js_ge (sanitized_grant grant_30000) (sanitized_systemCost grant_30000)"
    by (simp add: g c js_ge_def)
  with C8_upfront_never_negative [of grant_30000] g c show ?thesis
    by (simp add: js_sub_def fl_neg_numeral)
qed

subsection \<open>C9: finite results\<close>

text \<open>
  C9, as stated: for every input, no field of the result other than \<open>paybackYears\<close> is
  NaN or infinite. No field has an upper bound, and a product that leaves the binary64
  range is \<^verbatim>\<open>Infinity\<close>: with the household size \<^verbatim>\<open>1e306\<close> and the other defaults,
  \<open>annualHotWaterKwh\<close> is \<open>1e306 * 1000\<close>, which is \<^verbatim>\<open>Infinity\<close>, and so are
  \<open>annualHotWaterCost\<close>, \<open>annualSavings\<close>, \<open>netAnnualSavings\<close>, \<open>tenYearRoi\<close> and the value
  of year 1.
\<close>

theorem C9_finiteness_counterexample:
  "valid_form household_1e306 \<and> complete household_1e306 \<and>
   \<not> is_finite (annualHotWaterKwh (derived household_1e306)) \<and>
   \<not> is_finite (annualHotWaterCost (derived household_1e306)) \<and>
   \<not> is_finite (annualSavings (derived household_1e306)) \<and>
   \<not> is_finite (netAnnualSavings (derived household_1e306)) \<and>
   \<not> is_finite (tenYearRoi (derived household_1e306)) \<and>
   \<not> is_finite (val (data (derived household_1e306) ! 1))"
  using valid_household_1e306 derived_household_1e306 by simp

text \<open>
  C9, amended: take a well-formed input (the numbers in its fields are binary64 values, the
  maintenance is finite and not negative, the savings ratio lies in \<open>[0, 1]\<close>). Then
  \<open>upfront\<close> is finite, and no field other than \<open>paybackYears\<close> is NaN or infinite

  \<^item> for degenerate input (the guard branch), and
  \<^item> for input of moderate size: every sanitized field and the maintenance at most
    \<open>2^50\<close>, the horizon at most 800 years.

  For complete input of any size, whenever \<open>annualHotWaterCost\<close> is finite,
  \<open>annualHotWaterKwh\<close>, \<open>annualSavings\<close> and \<open>netAnnualSavings\<close> are finite too, and
  neither \<open>tenYearRoi\<close> nor any value of \<open>data\<close> is NaN; an infinity can still appear
  there where a product or a sum overflows.
\<close>

theorem C9_finiteness:
  assumes "valid_form form"
  shows "is_finite (upfront (derived form)) \<and>
     (\<not> complete form \<longrightarrow>
        is_finite (annualHotWaterKwh (derived form)) \<and>
        is_finite (annualHotWaterCost (derived form)) \<and>
        is_finite (annualSavings (derived form)) \<and>
        is_finite (netAnnualSavings (derived form)) \<and>
        is_finite (tenYearRoi (derived form)) \<and>
        (\<forall>p \<in> set (data (derived form)). is_finite (val p))) \<and>
     (moderate_form form \<longrightarrow>
        is_finite (annualHotWaterKwh (derived form)) \<and>
        is_finite (annualHotWaterCost (derived form)) \<and>
        is_finite (annualSavings (derived form)) \<and>
        is_finite (netAnnualSavings (derived form)) \<and>
        is_finite (tenYearRoi (derived form)) \<and>
        (\<forall>p \<in> set (data (derived form)). is_finite (val p))) \<and>
     (complete form \<and> is_finite (annualHotWaterCost (derived form)) \<longrightarrow>
        is_finite (annualHotWaterKwh (derived form)) \<and>
        is_finite (annualSavings (derived form)) \<and>
        is_finite (netAnnualSavings (derived form)) \<and>
        tenYearRoi (derived form) \<noteq> NaN \<and>
        (\<forall>p \<in> set (data (derived form)). val p \<noteq> NaN))"
proof -
  from assms have "is_finite (upfront (derived form))"
    by (intro upfront_finite) (simp_all add: valid_form_def)
  then show ?thesis
    using guard_finite [of form] moderate_finite [OF assms] main_not_NaN [OF assms]
    by blast
qed

theorem C9_finiteness_witness:
  "valid_form defaultInputs \<and> complete defaultInputs \<and> moderate_form defaultInputs \<and>
   is_finite (upfront (derived defaultInputs)) \<and>
   is_finite (annualHotWaterCost (derived defaultInputs)) \<and>
   is_finite (netAnnualSavings (derived defaultInputs)) \<and>
   is_finite (tenYearRoi (derived defaultInputs)) \<and>
   is_finite (val (data (derived defaultInputs) ! 15)) \<and>
   annualHotWaterCost (derived defaultInputs) = Fin 5850 \<and>
   tenYearRoi (derived defaultInputs) \<noteq> NaN \<and>
   val (data (derived defaultInputs) ! 1) \<noteq> NaN \<and>
   valid_form household_text \<and> \<not> complete household_text \<and>
   is_finite (annualHotWaterKwh (derived household_text)) \<and>
   is_finite (upfront (derived household_text)) \<and>
   is_finite (val (data (derived household_text) ! 1))"
proof -
  have c: "annualHotWaterCost (derived defaultInputs) = Fin 5850"
    by (simp add: derived_defaultInputs)
  then have c': "is_finite (annualHotWaterCost (derived defaultInputs))"
    by simp
  have e: "data (derived defaultInputs) ! 1 \<in> set (data (derived defaultInputs))"
    "data (derived defaultInputs) ! 15 \<in> set (data (derived defaultInputs))"
    by (rule nth_mem, simp add: derived_defaultInputs)+
  note t = C9_finiteness [OF valid_defaultInputs]
  from t have u: "is_finite (upfront (derived defaultInputs))"
    by blast
  from t moderate_defaultInputs have m: "is_finite (netAnnualSavings (derived defaultInputs))"
    "is_finite (tenYearRoi (derived defaultInputs))"
    "\<forall>p \<in> set (data (derived defaultInputs)). is_finite (val p)"
    by blast+
  from m(3) e(2) have d15: "is_finite (val (data (derived defaultInputs) ! 15))"
    by blast
  from t complete_defaultInputs c' have n: "tenYearRoi (derived defaultInputs) \<noteq> NaN"
    "\<forall>p \<in> set (data (derived defaultInputs)). val p \<noteq> NaN"
    by blast+
  from n(2) e(1) have d1: "val (data (derived defaultInputs) ! 1) \<noteq> NaN"
    by blast
  have "length (data (derived household_text)) = 16"
    using derived_incomplete [OF incomplete_household_text]
    by (simp add: derived_guard_def Let_def years_upto_def household_text_def defaultInputs_def)
  then have e': "data (derived household_text) ! 1 \<in> set (data (derived household_text))"
    by (intro nth_mem) simp
  note t' = C9_finiteness [OF valid_household_text]
  from t' have u': "is_finite (upfront (derived household_text))"
    by blast
  from t' incomplete_household_text
  have g: "is_finite (annualHotWaterKwh (derived household_text))"
    "\<forall>p \<in> set (data (derived household_text)). is_finite (val p)"
    by blast+
  from g(2) e' have d': "is_finite (val (data (derived household_text) ! 1))"
    by blast
  from valid_defaultInputs complete_defaultInputs moderate_defaultInputs u c' m(1,2) d15 c n(1) d1
    valid_household_text incomplete_household_text g(1) u' d'
  show ?thesis
    by blast
qed

subsection \<open>C10: the legacy calculator\<close>

text \<open>
  C10: when the five editable fields hold numbers that meet their minimums
  (\<open>householdSize\<close> an integer at least \<open>1\<close>, \<open>electricityPrice\<close> at least \<open>0.1\<close>,
  \<open>systemCost\<close> and \<open>grant\<close> integers at least \<open>0\<close>, \<open>kwhPerPerson\<close> an integer at
  least \<open>500\<close>), the sanitized calculator and the legacy calculator compute the same
  result, field by field.
\<close>

theorem C10_legacy_agrees:
  assumes "householdSize form = RNum (Fin (of_int a))" and "1 \<le> a"
    and "electricityPrice form = RNum (Fin p)" and "js_ge (Fin p) lit_0_1"
    and "systemCost form = RNum (Fin (of_int c))" and "0 \<le> c"
    and "grant form = RNum (Fin (of_int g))" and "0 \<le> g"
    and "kwhPerPerson form = RNum (Fin (of_int k))" and "500 \<le> k"
  shows "derived form =
     derived_legacy
       \<lparr>l_householdSize = Fin (of_int a),
        l_electricityPrice = Fin p,
        l_systemCost = Fin (of_int c),
        l_grant = Fin (of_int g),
        l_maintenance = maintenance form,
        l_savingsRatio = savingsRatio form,
        l_kwhPerPerson = Fin (of_int k),
        l_horizonYears = horizonYears form\<rparr>"
proof -
  have hs: "sanitized_householdSize form = Some (Fin (of_int a))"
    using assms(1,2) by (simp add: sanitize_defs parseNum_def max_def)
  have kp: "sanitized_kwhPerPerson form = Some (Fin (of_int k))"
    using assms(9,10) by (simp add: sanitize_defs parseNum_def max_def)
  have ep: "sanitized_electricityPrice form = Some (Fin p)"
    using assms(3,4)
    by (simp add: sanitized_electricityPrice_def clampMin_def parseNum_def lit_0_1_value
          js_ge_def max_def)
  have sc: "sanitized_systemCost form = Fin (of_int c)"
    using assms(5,6) by (simp add: sanitize_defs parseNum_def max_def)
  have gr: "sanitized_grant form = Fin (of_int g)"
    using assms(7,8) by (simp add: sanitize_defs parseNum_def max_def)
  have "derived form = derived_main form (Fin (of_int a)) (Fin p) (Fin (of_int k))"
    by (simp add: derived_def hs ep kp)
  then show ?thesis
    by (simp add: derived_main_def derived_legacy_def sc gr)
qed

theorem C10_legacy_agrees_witness:
  "derived defaultInputs = derived_legacy legacy_defaultInputs \<and>
   annualSavings (derived_legacy legacy_defaultInputs) = Fin 3861 \<and>
   length (data (derived_legacy legacy_defaultInputs)) = 16"
proof -
  have "derived defaultInputs =
     derived_legacy
       \<lparr>l_householdSize = Fin (of_int 3),
        l_electricityPrice = Fin (8782019273372467 / 4503599627370496),
        l_systemCost = Fin (of_int 29000),
        l_grant = Fin (of_int 0),
        l_maintenance = maintenance defaultInputs,
        l_savingsRatio = savingsRatio defaultInputs,
        l_kwhPerPerson = Fin (of_int 1000),
        l_horizonYears = horizonYears defaultInputs\<rparr>"
    by (rule C10_legacy_agrees)
       (simp_all add: defaultInputs_def fl_1_95 lit_0_1_value js_ge_def)
  then have eq: "derived defaultInputs = derived_legacy legacy_defaultInputs"
    by (simp add: legacy_defaultInputs_def defaultInputs_def fl_1_95)
  have "annualSavings (derived defaultInputs) = Fin 3861"
    and "length (data (derived defaultInputs)) = 16"
    by (simp_all add: derived_defaultInputs)
  with eq show ?thesis
    by simp
qed

end
